theory Spec2Isabelle
  imports Complex_Main "HOL-Library.Multiset"
begin

section \<open>Python primitives used by the script\<close>

text \<open>
  \<^verbatim>\<open>str(n)\<close> of a Python int, as an f-string renders \<^verbatim>\<open>{n}\<close>: decimal digits, a
  leading minus sign for a negative number.
\<close>

definition digit_char :: "nat \<Rightarrow> char" where
  "digit_char d = ''0123456789'' ! d"

fun str_nat :: "nat \<Rightarrow> string" where
  "str_nat n = (if n < 10 then [digit_char n] else str_nat (n div 10) @ [digit_char (n mod 10)])"

declare str_nat.simps [simp del]

definition str_int :: "int \<Rightarrow> string" where
  "str_int i = (if i < 0 then CHR ''-'' # str_nat (nat (- i)) else str_nat (nat i))"

text \<open>
  The exceptions the script raises itself (\<^verbatim>\<open>ValueError\<close>, \<^verbatim>\<open>FileNotFoundError\<close>,
  \<^verbatim>\<open>Exception\<close>, \<^verbatim>\<open>TimeoutError\<close>, each with its message) and those that its
  indexing, \<^verbatim>\<open>response.json()\<close> and its division can raise.
\<close>

datatype error =
    ValueError string
  | FileNotFoundError string
  | Exception string
  | TimeoutError string
  | KeyError string
  | JSONDecodeError
  | ZeroDivisionError
  | OverflowError

text \<open>
  What the script does to the outside world, in the order it does it: a line printed, a
  GET of a URL, the POST of a file (URL and file name), a blocking \<^verbatim>\<open>time.sleep\<close>.
  Every effectful function of the model returns its result together with the events it
  caused.
\<close>

datatype event =
    Print string
  | HttpGet string
  | HttpPost string string
  | Sleep nat

type_synonym headers = "(string \<times> string) list"

text \<open>
  A \<^verbatim>\<open>requests\<close> response: its \<^verbatim>\<open>status_code\<close>, its \<^verbatim>\<open>text\<close> and what
  \<^verbatim>\<open>response.json()\<close> gives (\<open>None\<close> when the body does not parse, on which the call
  raises).
\<close>

record 'a response =
  status_code :: int
  resp_text :: string
  resp_json :: "'a option"

section \<open>The documents of the remote service\<close>

text \<open>
  The JSON documents are modelled at the shape in which the script reads them. A key the
  script reads with \<^verbatim>\<open>.get\<close> or tests with \<^verbatim>\<open>in\<close> is an optional field; so is a key
  it indexes directly, whose absence is a \<^verbatim>\<open>KeyError\<close>. Keys the script never reads are
  not represented, and the counts are Python ints.
\<close>

record stats =
  st_total :: "int option"
  st_malicious :: "int option"
  st_suspicious :: "int option"
  st_undetected :: "int option"

record static_attributes =
  sa_status :: "string option"
  sa_stats :: "stats option"

record static_data =
  sd_attributes :: "static_attributes option"

record static_report =
  sr_data :: "static_data option"

section \<open>The poller\<close>

text \<open>\<^verbatim>\<open>report["data"]["attributes"]["status"]\<close>, with the \<^verbatim>\<open>KeyError\<close> of each index.\<close>

definition report_status :: "static_report \<Rightarrow> error + string" where
  "report_status report =
     (case sr_data report of
        None \<Rightarrow> Inl (KeyError ''data'')
      | Some d \<Rightarrow>
          (case sd_attributes d of
             None \<Rightarrow> Inl (KeyError ''attributes'')
           | Some a \<Rightarrow>
               (case sa_status a of
                  None \<Rightarrow> Inl (KeyError ''status'')
                | Some s \<Rightarrow> Inr s)))"

text \<open>
  The body of \<^verbatim>\<open>for attempt in range(max_attempts)\<close> in \<^verbatim>\<open>_get_analysis_report\<close>, over
  the attempts still to run. \<open>get url headers k\<close> is the service's response to the status
  query number \<open>k\<close> (counted from 0). The loop gives \<open>Some\<close> when it is left by
  \<^verbatim>\<open>return\<close> or \<^verbatim>\<open>raise\<close> and \<open>None\<close> when the range is used up.
\<close>

fun poll_attempts ::
  "(string \<Rightarrow> headers \<Rightarrow> nat \<Rightarrow> static_report response) \<Rightarrow> string \<Rightarrow> headers \<Rightarrow> int \<Rightarrow> nat \<Rightarrow>
     nat list \<Rightarrow> (error + static_report) option \<times> event list" where
  "poll_attempts get analysis_url hdrs max_attempts wait_time [] = (None, [])"
| "poll_attempts get analysis_url hdrs max_attempts wait_time (attempt # rest) =
     (let response = get analysis_url hdrs attempt in
      if status_code response = 200 then
        (case resp_json response of
           None \<Rightarrow> (Some (Inl JSONDecodeError), [HttpGet analysis_url])
         | Some report \<Rightarrow>
             (case report_status report of
                Inl e \<Rightarrow> (Some (Inl e), [HttpGet analysis_url])
              | Inr status \<Rightarrow>
                  if status = ''completed'' then (Some (Inr report), [HttpGet analysis_url])
                  else
                    (let (r, evs) = poll_attempts get analysis_url hdrs max_attempts wait_time rest in
                     (r, [HttpGet analysis_url,
                          Print (''Analysis in progress... waiting '' @ str_nat wait_time
                                 @ '' seconds (attempt '' @ str_nat (attempt + 1) @ ''/''
                                 @ str_int max_attempts @ '')''),
                          Sleep wait_time] @ evs))))
      else
        (Some (Inl (Exception (''Failed to get analysis report with status code ''
                               @ str_int (status_code response) @ '': '' @ resp_text response))),
         [HttpGet analysis_url]))"

definition get_analysis_report ::
  "(string \<Rightarrow> headers \<Rightarrow> nat \<Rightarrow> static_report response) \<Rightarrow> string \<Rightarrow> string \<Rightarrow> headers \<Rightarrow> int \<Rightarrow> nat \<Rightarrow>
     (error + static_report) \<times> event list" where
  "get_analysis_report get file_id base_url hdrs max_attempts wait_time =
     (let analysis_url = base_url @ ''/analyses/'' @ file_id in
      case poll_attempts get analysis_url hdrs max_attempts wait_time [0..<nat max_attempts] of
        (Some r, evs) \<Rightarrow> (r, evs)
      | (None, evs) \<Rightarrow>
          (Inl (TimeoutError (''Analysis did not complete after '' @ str_int max_attempts
                              @ '' attempts'')), evs))"

text \<open>The status queries and the waits among the events of a run.\<close>

definition queries :: "event list \<Rightarrow> event list" where
  "queries evs = filter (\<lambda>e. case e of HttpGet u \<Rightarrow> True | _ \<Rightarrow> False) evs"

definition sleeps :: "event list \<Rightarrow> event list" where
  "sleeps evs = filter (\<lambda>e. case e of Sleep s \<Rightarrow> True | _ \<Rightarrow> False) evs"

text \<open>A response to a status query that succeeds and reports a status other than completed.\<close>

definition in_progress :: "static_report response \<Rightarrow> bool" where
  "in_progress r =
     (status_code r = 200 \<and>
      (case resp_json r of
         None \<Rightarrow> False
       | Some report \<Rightarrow>
           (case report_status report of Inl e \<Rightarrow> False | Inr s \<Rightarrow> s \<noteq> ''completed'')))"

text \<open>A response to a status query that succeeds and reports completed, with its payload.\<close>

definition completed_with :: "static_report response \<Rightarrow> static_report \<Rightarrow> bool" where
  "completed_with r report =
     (status_code r = 200 \<and> resp_json r = Some report \<and> report_status report = Inr ''completed'')"

text \<open>The events of one attempt that finds the analysis still in progress.\<close>

definition attempt_events :: "string \<Rightarrow> int \<Rightarrow> nat \<Rightarrow> nat \<Rightarrow> event list" where
  "attempt_events analysis_url max_attempts wait_time attempt =
     [HttpGet analysis_url,
      Print (''Analysis in progress... waiting '' @ str_nat wait_time
             @ '' seconds (attempt '' @ str_nat (attempt + 1) @ ''/''
             @ str_int max_attempts @ '')''),
      Sleep wait_time]"


section \<open>The inputs of the report generator\<close>

text \<open>
  \<^verbatim>\<open>results["file_info"]\<close>, which \<^verbatim>\<open>dy_file\<close> builds itself: every key is present.
\<close>

record hashes =
  h_md5 :: string
  h_sha1 :: string
  h_sha256 :: string

record file_info =
  fi_name :: string
  fi_size :: int
  fi_path :: string
  fi_analysis_time :: string
  fi_hashes :: hashes

text \<open>
  The behaviour document, \<^verbatim>\<open>{"data": [sandbox, ...]}\<close>. Every key below \<^verbatim>\<open>data\<close> is read
  with \<^verbatim>\<open>.get\<close> and a default, so every field is optional.
\<close>

record process =
  pr_name :: "string option"
  pr_pid :: "int option"

record dns_request =
  dns_hostname :: "string option"

record http_request =
  http_url :: "string option"

record network =
  nw_dns :: "dns_request list option"
  nw_http :: "http_request list option"

record registry =
  rg_keys_set :: "string list option"

record files =
  fl_written :: "string list option"

record sandbox_attributes =
  sb_sandbox_name :: "string option"
  sb_processes :: "process list option"
  sb_network :: "network option"
  sb_registry :: "registry option"
  sb_files :: "files option"

record sandbox =
  sx_attributes :: "sandbox_attributes option"

record behavior_report =
  br_data :: "sandbox list option"

text \<open>
  The \<^verbatim>\<open>analysis_results\<close> dictionary. \<open>ar_static_analysis = None\<close> is a dictionary
  without the key \<^verbatim>\<open>static_analysis\<close> (\<^verbatim>\<open>dy_file\<close> always sets it);
  \<open>ar_dynamic_analysis = None\<close> is the value \<^verbatim>\<open>None\<close> that the behaviour fetcher returns
  on a 404.
\<close>

record analysis_results =
  ar_file_info :: file_info
  ar_static_analysis :: "static_report option"
  ar_dynamic_analysis :: "behavior_report option"

text \<open>\<^verbatim>\<open>d.get(key, default)\<close> on an optional field.\<close>

definition py_get :: "'a option \<Rightarrow> 'a \<Rightarrow> 'a" where
  "py_get v dflt = (case v of None \<Rightarrow> dflt | Some x \<Rightarrow> x)"

text \<open>The empty dictionary \<^verbatim>\<open>{}\<close> at each type, the default of the \<^verbatim>\<open>.get\<close> calls.\<close>

definition empty_stats :: stats where
  "empty_stats = \<lparr>st_total = None, st_malicious = None, st_suspicious = None, st_undetected = None\<rparr>"

definition empty_static_attributes :: static_attributes where
  "empty_static_attributes = \<lparr>sa_status = None, sa_stats = None\<rparr>"

definition empty_static_data :: static_data where
  "empty_static_data = \<lparr>sd_attributes = None\<rparr>"

definition empty_static_report :: static_report where
  "empty_static_report = \<lparr>sr_data = None\<rparr>"

definition empty_network :: network where
  "empty_network = \<lparr>nw_dns = None, nw_http = None\<rparr>"

definition empty_registry :: registry where
  "empty_registry = \<lparr>rg_keys_set = None\<rparr>"

definition empty_files :: files where
  "empty_files = \<lparr>fl_written = None\<rparr>"

definition empty_sandbox_attributes :: sandbox_attributes where
  "empty_sandbox_attributes =
     \<lparr>sb_sandbox_name = None, sb_processes = None, sb_network = None, sb_registry = None,
      sb_files = None\<rparr>"

text \<open>
  Python's truth value of a report dictionary: false for the empty dictionary only.
  The one key of a report that the model holds is \<^verbatim>\<open>data\<close>.
\<close>

definition truthy_static :: "static_report \<Rightarrow> bool" where
  "truthy_static r = (sr_data r \<noteq> None)"

definition truthy_behavior :: "behavior_report \<Rightarrow> bool" where
  "truthy_behavior r = (br_data r \<noteq> None)"

section \<open>Strings\<close>

definition nl :: char where
  "nl = CHR 0x0A"

text \<open>\<^verbatim>\<open>"\n".join(report)\<close>.\<close>

fun join_nl :: "string list \<Rightarrow> string" where
  "join_nl [] = []"
| "join_nl [x] = x"
| "join_nl (x # y # ys) = x @ nl # join_nl (y # ys)"

text \<open>\<^verbatim>\<open>s.lower()\<close>, on the ASCII letters.\<close>

definition lower_char :: "char \<Rightarrow> char" where
  "lower_char c =
     (case map_of (zip ''ABCDEFGHIJKLMNOPQRSTUVWXYZ'' ''abcdefghijklmnopqrstuvwxyz'') c of
        None \<Rightarrow> c
      | Some l \<Rightarrow> l)"

definition lower :: "string \<Rightarrow> string" where
  "lower s = map lower_char s"

text \<open>\<^verbatim>\<open>p in s\<close> for two strings: \<open>p\<close> occurs in \<open>s\<close> as a substring.\<close>

fun starts_with :: "string \<Rightarrow> string \<Rightarrow> bool" where
  "starts_with [] s = True"
| "starts_with (p # ps) [] = False"
| "starts_with (p # ps) (c # cs) = (p = c \<and> starts_with ps cs)"

fun py_in :: "string \<Rightarrow> string \<Rightarrow> bool" where
  "py_in p [] = (p = [])"
| "py_in p (c # cs) = (starts_with p (c # cs) \<or> py_in p cs)"

section \<open>Floating point\<close>

text \<open>
  \<^verbatim>\<open>(malicious + suspicious) / total * 100\<close> is computed in binary64. A float is the
  rational it denotes, the negative zero, or an infinity (no operation of the script
  gives a NaN).
\<close>

datatype pyfloat = Float rat | NegZero | PosInf | NegInf

text \<open>The number of binary digits of a positive int.\<close>

function bitlen :: "int \<Rightarrow> int" where
  "bitlen n = (if n \<le> 0 then 0 else 1 + bitlen (n div 2))"
  by pat_completeness auto
termination
  by (relation "measure nat") auto

declare bitlen.simps [simp del]

text \<open>The integer \<open>e\<close> with \<open>2 ^ e \<le> x < 2 ^ (e + 1)\<close>, for a positive \<open>x\<close>.\<close>

definition ilog2 :: "rat \<Rightarrow> int" where
  "ilog2 x =
     (let (p, q) = quotient_of x;
          d = bitlen p - bitlen q
      in if 2 powi d \<le> x then d else d - 1)"

definition round_half_even :: "rat \<Rightarrow> int" where
  "round_half_even y =
     (let f = \<lfloor>y\<rfloor>; r = y - of_int f
      in if r < 1 / 2 then f else if 1 / 2 < r then f + 1 else if even f then f else f + 1)"

text \<open>
  The multiple of the spacing of the doubles around \<open>x\<close> that is nearest to \<open>x\<close>, ties to
  the even multiple: 53 significant bits, and multiples of \<open>2 ^ -1074\<close> below
  \<open>2 ^ -1022\<close> (the subnormal range). The result is a double unless it reaches
  \<open>2 ^ 1024\<close>, which is how binary64 defines overflow.
\<close>

definition float_round :: "rat \<Rightarrow> rat" where
  "float_round x =
     (if x = 0 then 0
      else
        (let a = \<bar>x\<bar>; ulp = 2 powi (max (ilog2 a) (- 1022) - 52)
         in sgn x * of_int (round_half_even (a / ulp)) * ulp))"

text \<open>
  \<^verbatim>\<open>a / b\<close> on two ints: \<^verbatim>\<open>ZeroDivisionError\<close> when \<open>b\<close> is 0, \<^verbatim>\<open>OverflowError\<close> when
  the rounded quotient is beyond the doubles, and a zero with the sign of the exact
  quotient when it rounds to zero.
\<close>

definition true_div :: "int \<Rightarrow> int \<Rightarrow> error + pyfloat" where
  "true_div a b =
     (if b = 0 then Inl ZeroDivisionError
      else
        (let r = float_round (of_int a / of_int b)
         in if 2 ^ 1024 \<le> \<bar>r\<bar> then Inl OverflowError
            else if r = 0 \<and> (a < 0) \<noteq> (b < 0) then Inr NegZero
            else Inr (Float r)))"

text \<open>
  \<^verbatim>\<open>x * y\<close> for a float \<open>x\<close> and a positive double \<open>y\<close> (the script multiplies by 100): the
  product overflows to an infinity and keeps the sign of \<open>x\<close> when it rounds to zero.
\<close>

definition float_mul :: "pyfloat \<Rightarrow> rat \<Rightarrow> pyfloat" where
  "float_mul x y =
     (case x of
        Float r \<Rightarrow>
          (let p = float_round (r * y)
           in if 2 ^ 1024 \<le> p then PosInf
              else if p \<le> - (2 ^ 1024) then NegInf
              else if p = 0 \<and> r < 0 then NegZero
              else Float p)
      | NegZero \<Rightarrow> NegZero
      | PosInf \<Rightarrow> PosInf
      | NegInf \<Rightarrow> NegInf)"

text \<open>\<^verbatim>\<open>x >= c\<close> for a float \<open>x\<close> and an int \<open>c\<close>.\<close>

definition float_ge :: "pyfloat \<Rightarrow> int \<Rightarrow> bool" where
  "float_ge x c =
     (case x of
        Float r \<Rightarrow> of_int c \<le> r
      | NegZero \<Rightarrow> c \<le> 0
      | PosInf \<Rightarrow> True
      | NegInf \<Rightarrow> False)"

text \<open>
  \<^verbatim>\<open>f"{x:.2f}"\<close>: for a finite \<open>x\<close> the decimal with two places nearest to the exact value
  of \<open>x\<close>, ties to even, with the sign of \<open>x\<close>; \<^verbatim>\<open>inf\<close> and \<^verbatim>\<open>-inf\<close> for the infinities.
\<close>

definition format_2f :: "pyfloat \<Rightarrow> string" where
  "format_2f x =
     (case x of
        Float r \<Rightarrow>
          (let cents = nat (round_half_even (\<bar>r\<bar> * 100))
           in (if r < 0 then ''-'' else '''') @ str_nat (cents div 100) @ ''.''
              @ [digit_char (cents mod 100 div 10), digit_char (cents mod 10)])
      | NegZero \<Rightarrow> ''-0.00''
      | PosInf \<Rightarrow> ''inf''
      | NegInf \<Rightarrow> ''-inf'')"

section \<open>The report generator\<close>

text \<open>
  \<^verbatim>\<open>(malicious + suspicious) / total * 100\<close>, the expression of lines 196 and 321, and
  the \<^verbatim>\<open>detection_rate\<close> of lines 195 to 198, which is the int 0 when \<^verbatim>\<open>total > 0\<close>
  fails.
\<close>

definition rate_of :: "int \<Rightarrow> int \<Rightarrow> int \<Rightarrow> error + pyfloat" where
  "rate_of total' malicious suspicious =
     (case true_div (malicious + suspicious) total' of
        Inl e \<Rightarrow> Inl e
      | Inr q \<Rightarrow> Inr (float_mul q 100))"

definition detection_rate :: "int \<Rightarrow> int \<Rightarrow> int \<Rightarrow> error + pyfloat" where
  "detection_rate total' malicious suspicious =
     (if total' > 0 then rate_of total' malicious suspicious else Inr (Float 0))"

text \<open>Lines 164 to 176: the file identity block.\<close>

definition file_lines :: "file_info \<Rightarrow> string list" where
  "file_lines file_info =
     [replicate 80 CHR ''='',
      ''MALWARE ANALYSIS REPORT'',
      replicate 80 CHR ''='',
      ''File Name: '' @ fi_name file_info,
      ''File Size: '' @ str_int (fi_size file_info) @ '' bytes'',
      ''File Path: '' @ fi_path file_info,
      ''Analysis Time: '' @ fi_analysis_time file_info,
      '''',
      ''File Hashes:'',
      ''  MD5:    '' @ h_md5 (fi_hashes file_info),
      ''  SHA-1:  '' @ h_sha1 (fi_hashes file_info),
      ''  SHA-256: '' @ h_sha256 (fi_hashes file_info),
      '''']"

text \<open>Lines 186 to 204: the lines appended for a \<^verbatim>\<open>stats\<close> object.\<close>

definition stats_lines :: "stats \<Rightarrow> error + string list" where
  "stats_lines stats =
     (let total' = py_get (st_total stats) 0;
          malicious = py_get (st_malicious stats) 0;
          suspicious = py_get (st_suspicious stats) 0;
          undetected = py_get (st_undetected stats) 0
      in case detection_rate total' malicious suspicious of
           Inl e \<Rightarrow> Inl e
         | Inr rate \<Rightarrow>
             Inr [replicate 80 CHR ''-'',
                  ''DETECTION STATISTICS'',
                  replicate 80 CHR ''-'',
                  ''Detection Rate: '' @ format_2f rate @ ''% (''
                    @ str_int (malicious + suspicious) @ ''/'' @ str_int total' @ '')'',
                  ''  Malicious:  '' @ str_int malicious,
                  ''  Suspicious:  '' @ str_int suspicious,
                  ''  Undetected:  '' @ str_int undetected,
                  ''''])"

text \<open>
  Lines 179 to 204. A report without \<^verbatim>\<open>data\<close> is the empty dictionary, which the test of
  line 179 takes for false.
\<close>

definition static_lines :: "static_report option \<Rightarrow> error + string list" where
  "static_lines static_analysis =
     (case static_analysis of
        None \<Rightarrow> Inr []
      | Some sa \<Rightarrow>
          (case sr_data sa of
             None \<Rightarrow> Inr []
           | Some static_data \<Rightarrow>
               (case sd_attributes static_data of
                  None \<Rightarrow> Inr []
                | Some attrs \<Rightarrow>
                    (case sa_stats attrs of
                       None \<Rightarrow> Inr []
                     | Some stats \<Rightarrow> stats_lines stats))))"

text \<open>Lines 216 to 259: the detail block of the sandbox record at index \<open>i\<close>.\<close>

definition process_line :: "process \<Rightarrow> string" where
  "process_line proc =
     ''  * '' @ py_get (pr_name proc) ''Unknown'' @ '' (PID: ''
     @ (case pr_pid proc of None \<Rightarrow> ''N/A'' | Some p \<Rightarrow> str_int p) @ '')''"

definition sandbox_lines :: "nat \<Rightarrow> sandbox \<Rightarrow> string list" where
  "sandbox_lines i sandbox =
     (let attrs = py_get (sx_attributes sandbox) empty_sandbox_attributes;
          sandbox_id = py_get (sb_sandbox_name attrs) (''Sandbox '' @ str_nat (i + 1));
          processes = py_get (sb_processes attrs) [];
          network = py_get (sb_network attrs) empty_network;
          dns_requests = py_get (nw_dns network) [];
          http_requests = py_get (nw_http network) [];
          registry = py_get (sb_registry attrs) empty_registry;
          keys_set = py_get (rg_keys_set registry) [];
          files = py_get (sb_files attrs) empty_files;
          files_written = py_get (fl_written files) []
      in [''Sandbox: '' @ sandbox_id]
         @ (if processes \<noteq> []
            then (nl # ''Processes Created:'') # map process_line (take 10 processes) else [])
         @ (if dns_requests \<noteq> []
            then (nl # ''DNS Requests:'')
                 # map (\<lambda>dns. ''  * '' @ py_get (dns_hostname dns) ''Unknown'') (take 10 dns_requests)
            else [])
         @ (if http_requests \<noteq> []
            then (nl # ''HTTP Requests:'')
                 # map (\<lambda>http. ''  * '' @ py_get (http_url http) ''Unknown'') (take 10 http_requests)
            else [])
         @ (if keys_set \<noteq> []
            then (nl # ''Registry Keys Modified:'') # map (\<lambda>key. ''  * '' @ key) (take 10 keys_set)
            else [])
         @ (if files_written \<noteq> []
            then (nl # ''Files Written:'') # map (\<lambda>file. ''  * '' @ file) (take 10 files_written)
            else [])
         @ [nl # replicate 40 CHR ''-''])"

text \<open>
  Lines 268 to 289: the flags one sandbox record adds to \<^verbatim>\<open>behaviors\<close>. Each of the two
  inner loops appends its flag at the first match and breaks.
\<close>

definition sandbox_behaviors :: "sandbox \<Rightarrow> string list" where
  "sandbox_behaviors sandbox =
     (let attrs = py_get (sx_attributes sandbox) empty_sandbox_attributes;
          processes = py_get (sb_processes attrs) [];
          registry = py_get (sb_registry attrs) empty_registry;
          keys_set = py_get (rg_keys_set registry) [];
          network = py_get (sb_network attrs) empty_network;
          http_requests = py_get (nw_http network) []
      in (if list_ex (\<lambda>proc. py_in ''injection'' (lower (py_get (pr_name proc) ''''))) processes
          then [''Process injection detected''] else [])
         @ (if list_ex (\<lambda>key. py_in ''run'' (lower key) \<or> py_in ''startup'' (lower key)) keys_set
            then [''Persistence mechanism detected (autorun registry keys)''] else [])
         @ (if http_requests \<noteq> [] then [''Network communication detected''] else []))"

definition behaviors_of :: "sandbox list \<Rightarrow> string list" where
  "behaviors_of dynamic_data = concat (map sandbox_behaviors dynamic_data)"

text \<open>
  Lines 263 to 299. \<^verbatim>\<open>list(set(behaviors))\<close> lists each flag once, in the iteration order
  of a Python set of strings. The language fixes no such order and CPython derives it
  from the strings' hashes, which are salted anew for every process; the order is
  therefore a parameter \<open>set_order\<close> of the generator, from the list of flags to the list
  that \<^verbatim>\<open>list(set(...))\<close> produces.
\<close>

definition summary_lines :: "(string list \<Rightarrow> string list) \<Rightarrow> sandbox list \<Rightarrow> string list" where
  "summary_lines set_order dynamic_data =
     (let behaviors = set_order (behaviors_of dynamic_data)
      in (nl # ''Behavioral Summary:'')
         # (if behaviors \<noteq> [] then map (\<lambda>behavior. ''  * '' @ behavior) behaviors
            else [''  * No significant suspicious behaviors detected'']))"

text \<open>What a set iteration order has to satisfy: the elements of the list, each once.\<close>

definition set_iteration :: "(string list \<Rightarrow> string list) \<Rightarrow> bool" where
  "set_iteration f = (\<forall>xs. distinct (f xs) \<and> set (f xs) = set xs)"

definition no_data_lines :: "string list" where
  "no_data_lines =
     [replicate 80 CHR ''-'',
      ''DYNAMIC ANALYSIS RESULTS'',
      replicate 80 CHR ''-'',
      ''No dynamic analysis data available for this file'']"

definition detail_lines :: "sandbox list \<Rightarrow> string list" where
  "detail_lines dynamic_data =
     concat (map (\<lambda>(i, sandbox). sandbox_lines i sandbox) (enumerate 0 (take 3 dynamic_data)))"

text \<open>Lines 207 to 304.\<close>

definition dynamic_lines :: "(string list \<Rightarrow> string list) \<Rightarrow> behavior_report option \<Rightarrow> string list" where
  "dynamic_lines set_order dynamic_analysis =
     (case dynamic_analysis of
        None \<Rightarrow> no_data_lines
      | Some da \<Rightarrow>
          (case br_data da of
             None \<Rightarrow> no_data_lines
           | Some dynamic_data \<Rightarrow>
               if dynamic_data \<noteq> [] then
                 [replicate 80 CHR ''-'', ''DYNAMIC ANALYSIS RESULTS'', replicate 80 CHR ''-'']
                 @ detail_lines dynamic_data
                 @ summary_lines set_order dynamic_data
               else []))"

text \<open>Lines 312 to 314: the \<^verbatim>\<open>stats\<close> that the verdict is computed from.\<close>

definition conclusion_stats :: "static_report option \<Rightarrow> stats" where
  "conclusion_stats static_analysis =
     (let static_data = py_get (sr_data (py_get static_analysis empty_static_report)) empty_static_data;
          attrs = py_get (sd_attributes static_data) empty_static_attributes
      in py_get (sa_stats attrs) empty_stats)"

text \<open>Lines 316 to 330.\<close>

definition verdict_of :: "stats \<Rightarrow> error + string" where
  "verdict_of stats =
     (let total' = py_get (st_total stats) 0;
          malicious = py_get (st_malicious stats) 0;
          suspicious = py_get (st_suspicious stats) 0
      in if total' > 0 then
           (case rate_of total' malicious suspicious of
              Inl e \<Rightarrow> Inl e
            | Inr rate \<Rightarrow>
                Inr (if float_ge rate 50 then ''HIGH RISK - This file is likely malicious''
                     else if float_ge rate 10 then
                       ''MEDIUM RISK - This file is suspicious and requires further investigation''
                     else ''LOW RISK - This file appears to be clean, but exercise caution''))
         else Inr ''UNKNOWN RISK - Insufficient data to determine risk level'')"

text \<open>Lines 307 to 332.\<close>

definition conclusion_lines :: "static_report option \<Rightarrow> error + string list" where
  "conclusion_lines static_analysis =
     (case verdict_of (conclusion_stats static_analysis) of
        Inl e \<Rightarrow> Inl e
      | Inr verdict \<Rightarrow>
          Inr [nl # replicate 80 CHR ''='', ''CONCLUSION'', replicate 80 CHR ''='', verdict])"

text \<open>The list \<^verbatim>\<open>report\<close> as it stands at line 335, and the text that is returned.\<close>

definition report_entries ::
  "(string list \<Rightarrow> string list) \<Rightarrow> analysis_results \<Rightarrow> error + string list" where
  "report_entries set_order analysis_results =
     (case static_lines (ar_static_analysis analysis_results) of
        Inl e \<Rightarrow> Inl e
      | Inr static \<Rightarrow>
          (case conclusion_lines (ar_static_analysis analysis_results) of
             Inl e \<Rightarrow> Inl e
           | Inr conclusion \<Rightarrow>
               Inr (file_lines (ar_file_info analysis_results)
                    @ static
                    @ dynamic_lines set_order (ar_dynamic_analysis analysis_results)
                    @ conclusion)))"

definition generate_report ::
  "(string list \<Rightarrow> string list) \<Rightarrow> analysis_results \<Rightarrow> error + string" where
  "generate_report set_order analysis_results =
     (case report_entries set_order analysis_results of
        Inl e \<Rightarrow> Inl e
      | Inr report \<Rightarrow> Inr (join_nl report))"

section \<open>Notions used in the statements\<close>

text \<open>The entry that line 297 appends for a flag.\<close>

definition flag_entry :: "string \<Rightarrow> string" where
  "flag_entry behavior = ''  * '' @ behavior"

text \<open>
  The list \<^verbatim>\<open>behaviors\<close> of a run of the generator as it stands at line 291, before the
  duplicates are removed; empty when the summary is not reached.
\<close>

definition report_flags :: "analysis_results \<Rightarrow> string list" where
  "report_flags r =
     (case ar_dynamic_analysis r of
        None \<Rightarrow> []
      | Some da \<Rightarrow> (case br_data da of None \<Rightarrow> [] | Some dynamic_data \<Rightarrow> behaviors_of dynamic_data))"

text \<open>The lines of the flags in the report's text, each with its line break.\<close>

definition flag_text :: "string list \<Rightarrow> string" where
  "flag_text flags = concat (map (\<lambda>behavior. flag_entry behavior @ [nl]) flags)"

text \<open>
  The number that a printed decimal denotes: an optional minus sign, digits, and digits
  after a point.
\<close>

definition digit_of :: "char \<Rightarrow> nat" where
  "digit_of c =
     (case map_of (zip ''0123456789'' [0, 1, 2, 3, 4, 5, 6, 7, 8, 9]) c of
        None \<Rightarrow> 0
      | Some d \<Rightarrow> d)"

definition read_nat :: "string \<Rightarrow> nat" where
  "read_nat s = foldl (\<lambda>n c. 10 * n + digit_of c) 0 s"

definition decimal_value :: "string \<Rightarrow> rat" where
  "decimal_value s =
     (let neg = (s \<noteq> [] \<and> hd s = CHR ''-'');
          body = (if neg then tl s else s);
          ip = takeWhile (\<lambda>c. c \<noteq> CHR ''.'') body;
          fp = tl (dropWhile (\<lambda>c. c \<noteq> CHR ''.'') body);
          v = of_nat (read_nat (ip @ fp)) / 10 ^ length fp
      in if neg then - v else v)"

text \<open>A float that is a number: a rational or the negative zero.\<close>

definition finite_float :: "pyfloat \<Rightarrow> bool" where
  "finite_float x = (case x of Float r \<Rightarrow> True | NegZero \<Rightarrow> True | PosInf \<Rightarrow> False | NegInf \<Rightarrow> False)"
section \<open>Concrete runs\<close>

text \<open>Reports and services on which the theorems below are instantiated.\<close>

definition queued_report :: static_report where
  "queued_report =
     \<lparr>sr_data = Some \<lparr>sd_attributes = Some \<lparr>sa_status = Some ''queued'', sa_stats = None\<rparr>\<rparr>\<rparr>"

definition completed_report :: static_report where
  "completed_report =
     \<lparr>sr_data = Some \<lparr>sd_attributes = Some \<lparr>sa_status = Some ''completed'', sa_stats = None\<rparr>\<rparr>\<rparr>"

definition ok_response :: "'a \<Rightarrow> 'a response" where
  "ok_response body = \<lparr>status_code = 200, resp_text = [], resp_json = Some body\<rparr>"

definition never_completes :: "string \<Rightarrow> headers \<Rightarrow> nat \<Rightarrow> static_report response" where
  "never_completes u h k = ok_response queued_report"

definition completes_at :: "nat \<Rightarrow> string \<Rightarrow> headers \<Rightarrow> nat \<Rightarrow> static_report response" where
  "completes_at n u h k = (if k = n then ok_response completed_report else ok_response queued_report)"


definition stats_example :: "int \<Rightarrow> int \<Rightarrow> int \<Rightarrow> stats" where
  "stats_example t m s = \<lparr>st_total = Some t, st_malicious = Some m, st_suspicious = Some s, st_undetected = None\<rparr>"


definition ex_stats :: stats where
  "ex_stats = \<lparr>st_total = Some 10, st_malicious = Some 3, st_suspicious = Some 2,
               st_undetected = Some 5\<rparr>"

definition report_with_stats :: "stats \<Rightarrow> static_report" where
  "report_with_stats st =
     \<lparr>sr_data = Some \<lparr>sd_attributes = Some \<lparr>sa_status = Some ''completed'', sa_stats = Some st\<rparr>\<rparr>\<rparr>"

definition ex_file_info :: file_info where
  "ex_file_info =
     \<lparr>fi_name = ''sample.exe'', fi_size = 1234, fi_path = ''/tmp/sample.exe'',
      fi_analysis_time = ''2024-01-01 00:00:00'',
      fi_hashes = \<lparr>h_md5 = ''md5'', h_sha1 = ''sha1'', h_sha256 = ''abc123''\<rparr>\<rparr>"

definition ex_static_only :: analysis_results where
  "ex_static_only =
     \<lparr>ar_file_info = ex_file_info, ar_static_analysis = Some (report_with_stats ex_stats),
      ar_dynamic_analysis = None\<rparr>"

text \<open>A sandbox record with one HTTP request, one that also runs an injecting process, and one without any attribute.\<close>

definition http_sandbox :: sandbox where
  "http_sandbox =
     \<lparr>sx_attributes = Some
        \<lparr>sb_sandbox_name = None, sb_processes = None,
         sb_network = Some \<lparr>nw_dns = None, nw_http = Some [\<lparr>http_url = Some ''http://evil.example''\<rparr>]\<rparr>,
         sb_registry = None, sb_files = None\<rparr>\<rparr>"

definition injecting_sandbox :: sandbox where
  "injecting_sandbox =
     \<lparr>sx_attributes = Some
        \<lparr>sb_sandbox_name = Some ''box'',
         sb_processes = Some [\<lparr>pr_name = Some ''Injection.exe'', pr_pid = Some 42\<rparr>],
         sb_network = Some \<lparr>nw_dns = None, nw_http = Some [\<lparr>http_url = Some ''http://evil.example''\<rparr>]\<rparr>,
         sb_registry = None, sb_files = None\<rparr>\<rparr>"

definition quiet_sandbox :: sandbox where
  "quiet_sandbox = \<lparr>sx_attributes = None\<rparr>"

definition results_with :: "behavior_report option \<Rightarrow> analysis_results" where
  "results_with dynamic_analysis =
     \<lparr>ar_file_info = ex_file_info, ar_static_analysis = Some (report_with_stats ex_stats),
      ar_dynamic_analysis = dynamic_analysis\<rparr>"

definition results_of_stats :: "stats \<Rightarrow> analysis_results" where
  "results_of_stats st =
     \<lparr>ar_file_info = ex_file_info, ar_static_analysis = Some (report_with_stats st),
      ar_dynamic_analysis = None\<rparr>"

definition attributes_with_stats :: "stats \<Rightarrow> static_attributes" where
  "attributes_with_stats st = \<lparr>sa_status = Some ''completed'', sa_stats = Some st\<rparr>"

definition data_with_stats :: "stats \<Rightarrow> static_data" where
  "data_with_stats st = \<lparr>sd_attributes = Some (attributes_with_stats st)\<rparr>"
section \<open>The poller: queries, waits and results\<close>

lemma poll_attempts_in_progress:
  "list_all (\<lambda>a. in_progress (get u h a)) as \<Longrightarrow>
   poll_attempts get u h m w as = (None, concat (map (attempt_events u m w) as))"
  by (induction as)
     (auto simp: in_progress_def attempt_events_def Let_def split: option.splits sum.splits)

lemma poll_attempts_completed:
  "list_all (\<lambda>a. in_progress (get u h a)) pre \<Longrightarrow> completed_with (get u h k) report \<Longrightarrow>
   poll_attempts get u h m w (pre @ k # post) =
     (Some (Inr report), concat (map (attempt_events u m w) pre) @ [HttpGet u])"
  by (induction pre)
     (auto simp: in_progress_def completed_with_def attempt_events_def Let_def split: option.splits sum.splits)

lemma queries_attempts: "queries (concat (map (attempt_events u m w) as)) = replicate (length as) (HttpGet u)"
  by (induction as) (auto simp: queries_def attempt_events_def)

lemma sleeps_attempts: "sleeps (concat (map (attempt_events u m w) as)) = replicate (length as) (Sleep w)"
  by (induction as) (auto simp: sleeps_def attempt_events_def)

lemma queries_append: "queries (xs @ ys) = queries xs @ queries ys"
  by (simp add: queries_def)

lemma queries_single: "queries [HttpGet u] = [HttpGet u]"
  by (simp add: queries_def)

lemma sleeps_append: "sleeps (xs @ ys) = sleeps xs @ sleeps ys"
  by (simp add: sleeps_def)

lemma exhausted_run:
  assumes "\<forall>k<nat N. in_progress (get (base_url @ ''/analyses/'' @ file_id) hdrs k)"
  shows "get_analysis_report get file_id base_url hdrs N wait =
           (Inl (TimeoutError (''Analysis did not complete after '' @ str_int N @ '' attempts'')),
            concat (map (attempt_events (base_url @ ''/analyses/'' @ file_id) N wait) [0..<nat N]))"
proof -
  from assms have "list_all (\<lambda>a. in_progress (get (base_url @ ''/analyses/'' @ file_id) hdrs a)) [0..<nat N]"
    by (simp add: list_all_iff)
  then show ?thesis
    using poll_attempts_in_progress [of get "base_url @ ''/analyses/'' @ file_id" hdrs "[0..<nat N]" N wait]
    by (simp add: get_analysis_report_def)
qed

lemma completed_run:
  assumes "k < nat N"
    and "\<forall>j<k. in_progress (get (base_url @ ''/analyses/'' @ file_id) hdrs j)"
    and "completed_with (get (base_url @ ''/analyses/'' @ file_id) hdrs k) report"
  shows "get_analysis_report get file_id base_url hdrs N wait =
           (Inr report,
            concat (map (attempt_events (base_url @ ''/analyses/'' @ file_id) N wait) [0..<k])
            @ [HttpGet (base_url @ ''/analyses/'' @ file_id)])"
proof -
  let ?u = "base_url @ ''/analyses/'' @ file_id"
  from assms(1) have split: "[0..<nat N] = [0..<k] @ k # [Suc k..<nat N]"
    by (metis upt_conv_Cons upt_add_eq_append le0 le_add_diff_inverse less_imp_le_nat plus_nat.add_0)
  from assms(2) have "list_all (\<lambda>a. in_progress (get ?u hdrs a)) [0..<k]"
    by (simp add: list_all_iff)
  then show ?thesis
    using poll_attempts_completed [of get ?u hdrs "[0..<k]" k report N wait "[Suc k..<nat N]"] assms(3)
    by (simp add: get_analysis_report_def split)
qed

text \<open>
  Claim C1. Let \<open>N \<ge> 1\<close> be \<^verbatim>\<open>max_attempts\<close>. If each of the first \<open>N\<close> status queries is
  answered with HTTP 200 and a status other than completed, the poller fails with the
  \<^verbatim>\<open>TimeoutError\<close> whose message names \<open>N\<close>, and its run holds exactly \<open>N\<close> status queries.
  If query number \<open>k\<close> (\<open>k < N\<close>) is the first to report completed, with payload
  \<open>report\<close>, the poller returns that payload, its run holds exactly \<open>k + 1\<close> status queries,
  and the last event of the run is that query: nothing is queried, printed or waited for
  after it.
\<close>

theorem poller_query_count:
  "(1 \<le> N \<and> (\<forall>k<nat N. in_progress (get (base_url @ ''/analyses/'' @ file_id) hdrs k)) \<longrightarrow>
      fst (get_analysis_report get file_id base_url hdrs N wait) =
        Inl (TimeoutError (''Analysis did not complete after '' @ str_int N @ '' attempts'')) \<and>
      queries (snd (get_analysis_report get file_id base_url hdrs N wait)) =
        replicate (nat N) (HttpGet (base_url @ ''/analyses/'' @ file_id)))
   \<and> (k < nat N \<and> (\<forall>j<k. in_progress (get (base_url @ ''/analyses/'' @ file_id) hdrs j)) \<and>
        completed_with (get (base_url @ ''/analyses/'' @ file_id) hdrs k) report \<longrightarrow>
      fst (get_analysis_report get file_id base_url hdrs N wait) = Inr report \<and>
      queries (snd (get_analysis_report get file_id base_url hdrs N wait)) =
        replicate (Suc k) (HttpGet (base_url @ ''/analyses/'' @ file_id)) \<and>
      last (snd (get_analysis_report get file_id base_url hdrs N wait)) =
        HttpGet (base_url @ ''/analyses/'' @ file_id))"
proof (intro conjI impI)
  assume a: "1 \<le> N \<and> (\<forall>k<nat N. in_progress (get (base_url @ ''/analyses/'' @ file_id) hdrs k))"
  then have all: "\<forall>k<nat N. in_progress (get (base_url @ ''/analyses/'' @ file_id) hdrs k)"
    by simp
  show "fst (get_analysis_report get file_id base_url hdrs N wait) =
        Inl (TimeoutError (''Analysis did not complete after '' @ str_int N @ '' attempts''))"
    using exhausted_run [of N get base_url file_id hdrs wait] all by simp
  show "queries (snd (get_analysis_report get file_id base_url hdrs N wait)) =
        replicate (nat N) (HttpGet (base_url @ ''/analyses/'' @ file_id))"
    using exhausted_run [of N get base_url file_id hdrs wait] all by (simp add: queries_attempts)
next
  assume b: "k < nat N \<and> (\<forall>j<k. in_progress (get (base_url @ ''/analyses/'' @ file_id) hdrs j)) \<and>
        completed_with (get (base_url @ ''/analyses/'' @ file_id) hdrs k) report"
  then have run: "get_analysis_report get file_id base_url hdrs N wait =
           (Inr report,
            concat (map (attempt_events (base_url @ ''/analyses/'' @ file_id) N wait) [0..<k])
            @ [HttpGet (base_url @ ''/analyses/'' @ file_id)])"
    using completed_run [of k N get base_url file_id hdrs report wait] by simp
  show "fst (get_analysis_report get file_id base_url hdrs N wait) = Inr report"
    by (simp add: run)
  show "queries (snd (get_analysis_report get file_id base_url hdrs N wait)) =
        replicate (Suc k) (HttpGet (base_url @ ''/analyses/'' @ file_id))"
    by (simp add: run queries_append queries_attempts queries_single replicate_append_same)
  show "last (snd (get_analysis_report get file_id base_url hdrs N wait)) =
        HttpGet (base_url @ ''/analyses/'' @ file_id)"
    by (simp add: run)
qed
lemma in_progress_queued: "in_progress (ok_response queued_report)"
  by (simp add: in_progress_def ok_response_def queued_report_def report_status_def)

lemma completed_with_completed: "completed_with (ok_response completed_report) completed_report"
  by (simp add: completed_with_def ok_response_def completed_report_def report_status_def)

lemma str_int_3: "str_int 3 = ''3''"
  by (simp add: str_int_def str_nat.simps digit_char_def)

lemma str_int_1: "str_int 1 = ''1''"
  by (simp add: str_int_def str_nat.simps digit_char_def)

theorem poller_query_count_witness:
  "fst (get_analysis_report never_completes ''job'' ''https://vt'' [] 3 30) =
     Inl (TimeoutError ''Analysis did not complete after 3 attempts'') \<and>
   queries (snd (get_analysis_report never_completes ''job'' ''https://vt'' [] 3 30)) =
     replicate 3 (HttpGet ''https://vt/analyses/job'') \<and>
   fst (get_analysis_report (completes_at 1) ''job'' ''https://vt'' [] 3 30) = Inr completed_report \<and>
   queries (snd (get_analysis_report (completes_at 1) ''job'' ''https://vt'' [] 3 30)) =
     replicate 2 (HttpGet ''https://vt/analyses/job'') \<and>
   last (snd (get_analysis_report (completes_at 1) ''job'' ''https://vt'' [] 3 30)) =
     HttpGet ''https://vt/analyses/job''"
proof -
  have a: "1 \<le> (3::int) \<and> (\<forall>k<nat 3. in_progress (never_completes (''https://vt'' @ ''/analyses/'' @ ''job'') [] k))"
    by (simp add: never_completes_def in_progress_queued)
  have b: "1 < nat 3 \<and> (\<forall>j<1. in_progress (completes_at 1 (''https://vt'' @ ''/analyses/'' @ ''job'') [] j)) \<and>
        completed_with (completes_at 1 (''https://vt'' @ ''/analyses/'' @ ''job'') [] 1) completed_report"
    by (simp add: completes_at_def in_progress_queued completed_with_completed)
  from a b show ?thesis
    using poller_query_count [where N = 3 and get = never_completes and base_url = "''https://vt''"
      and file_id = "''job''" and hdrs = "[]" and wait = 30]
    poller_query_count [where N = 3 and get = "completes_at 1" and base_url = "''https://vt''"
      and file_id = "''job''" and hdrs = "[]" and wait = 30 and k = 1 and report = completed_report]
    by (simp add: str_int_3 numeral_2_eq_2)
qed
lemma last_attempt_events:
  "as \<noteq> [] \<Longrightarrow> last (concat (map (attempt_events u m w) as)) = Sleep w"
  by (induction as) (auto simp: attempt_events_def)

text \<open>
  Claim C2 says that a run which exhausts \<open>N\<close> attempts waits only between attempts, \<open>N - 1\<close>
  times. The loop calls \<^verbatim>\<open>time.sleep\<close> after every attempt that finds the analysis in
  progress, the last one included: with \<^verbatim>\<open>max_attempts = 1\<close> the run waits once (not
  \<open>1 - 1\<close> times), and the wait is the last thing it does before the timeout is raised.
\<close>

theorem waits_counterexample:
  "fst (get_analysis_report never_completes ''job'' ''https://vt'' [] 1 30) =
     Inl (TimeoutError ''Analysis did not complete after 1 attempts'') \<and>
   sleeps (snd (get_analysis_report never_completes ''job'' ''https://vt'' [] 1 30)) = [Sleep 30] \<and>
   length (sleeps (snd (get_analysis_report never_completes ''job'' ''https://vt'' [] 1 30))) \<noteq> 1 - 1 \<and>
   last (snd (get_analysis_report never_completes ''job'' ''https://vt'' [] 1 30)) = Sleep 30"
proof -
  have "\<forall>k<nat 1. in_progress (never_completes (''https://vt'' @ ''/analyses/'' @ ''job'') [] k)"
    by (simp add: never_completes_def in_progress_queued)
  then show ?thesis
    using exhausted_run [of 1 never_completes "''https://vt''" "''job''" "[]" 30]
    by (simp add: str_int_1 attempt_events_def sleeps_def)
qed

text \<open>
  Claim C2, amended. Let \<open>N \<ge> 1\<close> be \<^verbatim>\<open>max_attempts\<close>. If each of the first \<open>N\<close> status queries
  is answered with HTTP 200 and a status other than completed, the poller blocks for
  \<^verbatim>\<open>wait_time\<close> after every one of the \<open>N\<close> attempts, the final one included: the run
  holds exactly \<open>N\<close> waits, ends with a wait, and fails with the \<^verbatim>\<open>TimeoutError\<close> that
  names \<open>N\<close>.
\<close>

theorem poller_waits_after_every_attempt:
  "1 \<le> N \<and> (\<forall>k<nat N. in_progress (get (base_url @ ''/analyses/'' @ file_id) hdrs k)) \<longrightarrow>
     fst (get_analysis_report get file_id base_url hdrs N wait) =
       Inl (TimeoutError (''Analysis did not complete after '' @ str_int N @ '' attempts'')) \<and>
     sleeps (snd (get_analysis_report get file_id base_url hdrs N wait)) = replicate (nat N) (Sleep wait) \<and>
     last (snd (get_analysis_report get file_id base_url hdrs N wait)) = Sleep wait"
proof
  assume a: "1 \<le> N \<and> (\<forall>k<nat N. in_progress (get (base_url @ ''/analyses/'' @ file_id) hdrs k))"
  then have run: "get_analysis_report get file_id base_url hdrs N wait =
           (Inl (TimeoutError (''Analysis did not complete after '' @ str_int N @ '' attempts'')),
            concat (map (attempt_events (base_url @ ''/analyses/'' @ file_id) N wait) [0..<nat N]))"
    using exhausted_run [of N get base_url file_id hdrs wait] by simp
  from a have "[0..<nat N] \<noteq> []"
    by simp
  then have "last (concat (map (attempt_events (base_url @ ''/analyses/'' @ file_id) N wait) [0..<nat N])) = Sleep wait"
    by (rule last_attempt_events)
  then show "fst (get_analysis_report get file_id base_url hdrs N wait) =
       Inl (TimeoutError (''Analysis did not complete after '' @ str_int N @ '' attempts'')) \<and>
     sleeps (snd (get_analysis_report get file_id base_url hdrs N wait)) = replicate (nat N) (Sleep wait) \<and>
     last (snd (get_analysis_report get file_id base_url hdrs N wait)) = Sleep wait"
    by (simp add: run sleeps_attempts)
qed

theorem poller_waits_after_every_attempt_witness:
  "fst (get_analysis_report never_completes ''job'' ''https://vt'' [] 3 30) =
     Inl (TimeoutError ''Analysis did not complete after 3 attempts'') \<and>
   sleeps (snd (get_analysis_report never_completes ''job'' ''https://vt'' [] 3 30)) = replicate 3 (Sleep 30) \<and>
   last (snd (get_analysis_report never_completes ''job'' ''https://vt'' [] 3 30)) = Sleep 30"
proof -
  have "1 \<le> (3::int) \<and> (\<forall>k<nat 3. in_progress (never_completes (''https://vt'' @ ''/analyses/'' @ ''job'') [] k))"
    by (simp add: never_completes_def in_progress_queued)
  then show ?thesis
    using poller_waits_after_every_attempt [where N = 3 and get = never_completes
      and base_url = "''https://vt''" and file_id = "''job''" and hdrs = "[]" and wait = 30]
    by (simp add: str_int_3)
qed
section \<open>Floating point: the rounding and the rates of the examples\<close>

lemma bitlen_bounds:
  "0 < n \<Longrightarrow> 0 < bitlen n \<and> 2 ^ nat (bitlen n - 1) \<le> n \<and> n < 2 ^ nat (bitlen n)"
proof (induction n rule: bitlen.induct)
  case (1 n)
  then have n: "0 < n" by simp
  have b: "bitlen n = 1 + bitlen (n div 2)"
    using n by (subst bitlen.simps) simp
  show ?case
  proof (cases "n div 2 = 0")
    case True
    then have "n = 1" using n by linarith
    moreover have "bitlen 0 = 0" by (subst bitlen.simps) simp
    ultimately show ?thesis using b by simp
  next
    case False
    then have pos: "0 < n div 2" using n by (simp add: pos_imp_zdiv_pos_iff)
    with "1.IH" n have ih: "0 < bitlen (n div 2)" "2 ^ nat (bitlen (n div 2) - 1) \<le> n div 2"
      "n div 2 < 2 ^ nat (bitlen (n div 2))"
      by simp_all
    have e1: "nat (bitlen n - 1) = Suc (nat (bitlen (n div 2) - 1))"
      using ih(1) b by simp
    have e2: "nat (bitlen n) = Suc (nat (bitlen (n div 2)))"
      using ih(1) b by simp
    have "2 * (n div 2) \<le> n" by simp
    with ih(2) have lo: "2 ^ nat (bitlen n - 1) \<le> n"
      unfolding e1 by simp
    have "n < 2 * (n div 2 + 1)" by presburger
    with ih(3) have hi: "n < 2 ^ nat (bitlen n)"
      unfolding e2 by simp
    from lo hi ih(1) b show ?thesis by simp
  qed
qed

lemma powi_2_less_iff: "(2::rat) powi a < 2 powi b \<longleftrightarrow> a < b"
proof
  assume l: "(2::rat) powi a < 2 powi b"
  show "a < b"
  proof (rule ccontr)
    assume "\<not> a < b"
    then have "b \<le> a" by simp
    then have "(2::rat) powi b \<le> 2 powi a"
      by (intro power_int_increasing) auto
    with l show False by simp
  qed
next
  assume "a < b"
  then show "(2::rat) powi a < 2 powi b"
    by (intro power_int_strict_increasing) auto
qed

lemma ilog2_bounds:
  assumes "0 < x"
  shows "2 powi (ilog2 x) \<le> x \<and> x < 2 powi (ilog2 x + 1)"
proof -
  obtain p q where pq: "quotient_of x = (p, q)"
    by (cases "quotient_of x")
  then have q: "0 < q" by (rule quotient_of_denom_pos)
  from pq have x: "x = of_int p / of_int q" by (rule quotient_of_div)
  with assms q have p: "0 < p"
    by (simp add: zero_less_divide_iff)
  define bp where "bp = bitlen p"
  define bq where "bq = bitlen q"
  from bitlen_bounds [OF p] have P: "0 < bp" "2 ^ nat (bp - 1) \<le> p" "p < 2 ^ nat bp"
    by (simp_all add: bp_def)
  from bitlen_bounds [OF q] have Q: "0 < bq" "2 ^ nat (bq - 1) \<le> q" "q < 2 ^ nat bq"
    by (simp_all add: bq_def)
  have plo: "(2::rat) powi (bp - 1) \<le> of_int p"
  proof -
    have "(of_int (2 ^ nat (bp - 1)) :: rat) \<le> of_int p"
      using P(2) by (simp only: of_int_le_iff)
    then show ?thesis using P(1) by (simp add: power_int_def)
  qed
  have phi: "of_int p < (2::rat) powi bp"
  proof -
    have "(of_int p :: rat) < of_int (2 ^ nat bp)"
      using P(3) by (simp only: of_int_less_iff)
    then show ?thesis using P(1) by (simp add: power_int_def)
  qed
  have qlo: "(2::rat) powi (bq - 1) \<le> of_int q"
  proof -
    have "(of_int (2 ^ nat (bq - 1)) :: rat) \<le> of_int q"
      using Q(2) by (simp only: of_int_le_iff)
    then show ?thesis using Q(1) by (simp add: power_int_def)
  qed
  have qhi: "of_int q < (2::rat) powi bq"
  proof -
    have "(of_int q :: rat) < of_int (2 ^ nat bq)"
      using Q(3) by (simp only: of_int_less_iff)
    then show ?thesis using Q(1) by (simp add: power_int_def)
  qed
  have qpos: "(0::rat) < of_int q" using q by simp
  have ppos: "(0::rat) < of_int p" using p by simp
  have pw: "(0::rat) < 2 powi k" for k by simp
  define d where "d = bp - bq"
  have up: "x < 2 powi (d + 1)"
  proof -
    have "x < 2 powi bp / of_int q"
      unfolding x using phi qpos by (simp add: divide_strict_right_mono)
    also have "\<dots> \<le> 2 powi bp / 2 powi (bq - 1)"
      using qlo pw [of bp] mult_pos_pos [OF qpos pw [of "bq - 1"]] by (intro divide_left_mono) simp_all
    also have "\<dots> = 2 powi (bp - (bq - 1))"
      by (rule power_int_diff [symmetric]) simp
    also have "bp - (bq - 1) = d + 1"
      by (simp add: d_def)
    finally show ?thesis .
  qed
  have low: "2 powi (d - 1) < x"
  proof -
    have "d - 1 = (bp - 1) - bq"
      by (simp add: d_def)
    then have "(2::rat) powi (d - 1) = 2 powi ((bp - 1) - bq)"
      by (simp only:)
    also have "\<dots> = 2 powi (bp - 1) / 2 powi bq"
      by (rule power_int_diff) simp
    also have "\<dots> < 2 powi (bp - 1) / of_int q"
      using qhi pw [of "bp - 1"] mult_pos_pos [OF pw [of bq] qpos] by (intro divide_strict_left_mono) simp_all
    also have "\<dots> \<le> x"
      unfolding x using plo qpos by (simp add: divide_right_mono)
    finally show ?thesis .
  qed
  have il: "ilog2 x = (if 2 powi d \<le> x then d else d - 1)"
    by (simp add: ilog2_def pq d_def bp_def bq_def)
  show ?thesis
  proof (cases "2 powi d \<le> x")
    case True
    with il up show ?thesis by simp
  next
    case False
    with il low show ?thesis by simp
  qed
qed

lemma ilog2_unique:
  assumes "0 < x" and "2 powi e \<le> x" and "x < 2 powi (e + 1)"
  shows "ilog2 x = e"
proof -
  from ilog2_bounds [OF assms(1)] have b: "2 powi (ilog2 x) \<le> x" "x < 2 powi (ilog2 x + 1)"
    by simp_all
  from b(1) assms(3) have "(2::rat) powi (ilog2 x) < 2 powi (e + 1)" by simp
  then have 1: "ilog2 x < e + 1" by (simp only: powi_2_less_iff)
  from assms(2) b(2) have "(2::rat) powi e < 2 powi (ilog2 x + 1)" by simp
  then have 2: "e < ilog2 x + 1" by (simp only: powi_2_less_iff)
  from 1 2 show ?thesis by simp
qed

lemma float_round_pos:
  assumes "0 < x" and "2 powi e \<le> x" and "x < 2 powi (e + 1)"
  shows "float_round x =
           of_int (round_half_even (x / 2 powi (max e (- 1022) - 52))) * 2 powi (max e (- 1022) - 52)"
  using assms(1) by (simp add: float_round_def ilog2_unique [OF assms] Let_def)

lemma floor_rat_numeral: "\<lfloor>numeral a / numeral b :: rat\<rfloor> = numeral a div numeral b"
  by (metis floor_divide_of_int_eq of_int_numeral)

lemma fr_half: "float_round (1 / 2) = 1 / 2"
  using float_round_pos [of "1 / 2" "- 1"]
  by (simp add: round_half_even_def power_int_minus)


lemma fr_50: "float_round 50 = 50"
  using float_round_pos [of 50 5]
  by (simp add: round_half_even_def power_int_minus floor_rat_numeral Let_def)



lemma rate_10_3_2: "rate_of 10 3 2 = Inr (Float 50)"
  by (simp add: rate_of_def true_div_def float_mul_def fr_half fr_50)






lemma fr_2_1020: "float_round (2 ^ 1020) = 2 ^ 1020"
  using float_round_pos [of "2 ^ 1020" 1020]
  by (simp add: round_half_even_def power_int_minus floor_rat_numeral Let_def)

lemma fr_2_1020_100: "float_round (2 ^ 1020 * 100) = 25 * 2 ^ 1022"
  using float_round_pos [of "2 ^ 1020 * 100" 1026]
  by (simp add: round_half_even_def power_int_minus floor_rat_numeral Let_def)

lemma true_div_2_1020: "true_div (2 ^ 1020) 1 = Inr (Float (2 ^ 1020))"
proof -
  have a: "rat_of_int (2 ^ 1020) / rat_of_int 1 = 2 ^ 1020" by simp
  have b: "\<not> 2 ^ 1024 \<le> \<bar>(2::rat) ^ 1020\<bar>" by simp
  have c: "(2::rat) ^ 1020 \<noteq> 0" by simp
  show ?thesis
    unfolding true_div_def a fr_2_1020 Let_def using b c by (simp only: if_False one_neq_zero) simp
qed

lemma float_mul_2_1020: "float_mul (Float (2 ^ 1020)) 100 = PosInf"
proof -
  have b: "(2::rat) ^ 1024 \<le> 25 * 2 ^ 1022" by simp
  show ?thesis
    unfolding float_mul_def pyfloat.case fr_2_1020_100 Let_def using b by (simp only: if_True)
qed

lemma rate_inf: "rate_of 1 (2 ^ 1020) 0 = Inr PosInf"
proof -
  have "(2::int) ^ 1020 + 0 = 2 ^ 1020" by simp
  then show ?thesis
    unfolding rate_of_def by (simp only: true_div_2_1020 float_mul_2_1020 sum.case)
qed

lemma fr_2_1024: "float_round (2 ^ 1024) = 2 ^ 1024"
  using float_round_pos [of "2 ^ 1024" 1024]
  by (simp add: round_half_even_def power_int_minus floor_rat_numeral Let_def)

lemma true_div_2_1024: "true_div (2 ^ 1024) 1 = Inl OverflowError"
proof -
  have a: "rat_of_int (2 ^ 1024) / rat_of_int 1 = 2 ^ 1024" by simp
  have b: "2 ^ 1024 \<le> \<bar>(2::rat) ^ 1024\<bar>" by simp
  show ?thesis
    unfolding true_div_def a fr_2_1024 Let_def using b by (simp only: if_True if_False one_neq_zero)
qed

lemma rate_overflow: "rate_of 1 (2 ^ 1024) 0 = Inl OverflowError"
proof -
  have "(2::int) ^ 1024 + 0 = 2 ^ 1024" by simp
  then show ?thesis
    unfolding rate_of_def by (simp only: true_div_2_1024 sum.case)
qed
section \<open>The report generator: printing, results and verdict\<close>

lemma round_half_even_bounds: "\<bar>of_int (round_half_even y) - y\<bar> \<le> 1 / 2"
proof -
  have "of_int \<lfloor>y\<rfloor> \<le> y" "y < of_int \<lfloor>y\<rfloor> + 1"
    by linarith+
  then show ?thesis
    by (auto simp: round_half_even_def Let_def abs_le_iff)
qed

lemma round_half_even_nonneg: "0 \<le> y \<Longrightarrow> 0 \<le> round_half_even y"
proof -
  assume "0 \<le> y"
  then have "0 \<le> \<lfloor>y\<rfloor>" by simp
  then show ?thesis
    by (auto simp: round_half_even_def Let_def)
qed

lemma digit_of_digit_char: "d < 10 \<Longrightarrow> digit_of (digit_char d) = d"
proof -
  assume "d < 10"
  then have "d \<in> {0, 1, 2, 3, 4, 5, 6, 7, 8, 9}"
    by auto
  then show ?thesis
    by (auto simp: digit_char_def digit_of_def)
qed

lemma read_nat_snoc: "read_nat (xs @ [c]) = 10 * read_nat xs + digit_of c"
  by (simp add: read_nat_def)

lemma read_nat_str_nat: "read_nat (str_nat n) = n"
proof (induction n rule: str_nat.induct)
  case (1 n)
  show ?case
  proof (cases "n < 10")
    case True
    then show ?thesis
      by (subst str_nat.simps) (simp add: read_nat_def digit_of_digit_char)
  next
    case False
    have "read_nat (str_nat n) = read_nat (str_nat (n div 10) @ [digit_char (n mod 10)])"
      using False by (subst str_nat.simps) simp
    also have "\<dots> = 10 * read_nat (str_nat (n div 10)) + digit_of (digit_char (n mod 10))"
      by (rule read_nat_snoc)
    also have "\<dots> = 10 * (n div 10) + n mod 10"
      using False "1.IH" by (simp add: digit_of_digit_char)
    finally show ?thesis by simp
  qed
qed

lemma digit_char_digit: "d < 10 \<Longrightarrow> digit_char d \<in> set ''0123456789''"
proof -
  assume "d < 10"
  then have "d \<in> {0, 1, 2, 3, 4, 5, 6, 7, 8, 9}"
    by auto
  then show ?thesis
    by (auto simp: digit_char_def)
qed

lemma str_nat_digits: "set (str_nat n) \<subseteq> set ''0123456789''"
proof (induction n rule: str_nat.induct)
  case (1 n)
  show ?case
  proof (cases "n < 10")
    case True
    then show ?thesis
      using digit_char_digit [of n] by (subst str_nat.simps) simp
  next
    case False
    have "n mod 10 < 10" by simp
    then have "digit_char (n mod 10) \<in> set ''0123456789''"
      by (rule digit_char_digit)
    with False "1.IH" show ?thesis
      by (subst str_nat.simps) simp
  qed
qed

lemma str_nat_nonempty: "str_nat n \<noteq> []"
  by (subst str_nat.simps) simp

lemma digits_no_point: "CHR ''.'' \<notin> set (str_nat n)" "CHR ''-'' \<notin> set (str_nat n)"
  using str_nat_digits [of n] by auto

lemma read_back_digits:
  "read_nat (str_nat (c div 100) @ [digit_char (c mod 100 div 10), digit_char (c mod 10)]) = c"
proof -
  have d1: "c mod 100 div 10 < 10" by (simp add: div_less_iff_less_mult)
  have d2: "c mod 10 < 10" by simp
  have "read_nat (str_nat (c div 100) @ [digit_char (c mod 100 div 10), digit_char (c mod 10)]) =
        read_nat ((str_nat (c div 100) @ [digit_char (c mod 100 div 10)]) @ [digit_char (c mod 10)])"
    by simp
  also have "\<dots> = 10 * read_nat (str_nat (c div 100) @ [digit_char (c mod 100 div 10)])
                    + digit_of (digit_char (c mod 10))"
    by (rule read_nat_snoc)
  also have "\<dots> = 10 * (10 * (c div 100) + c mod 100 div 10) + c mod 10"
    by (simp add: read_nat_snoc read_nat_str_nat digit_of_digit_char d1 d2)
  also have "\<dots> = c"
  proof -
    have "c mod 100 mod 10 = c mod 10"
      by (simp add: mod_mod_cancel)
    then have a: "c mod 100 = 10 * (c mod 100 div 10) + c mod 10"
      using mult_div_mod_eq [of 10 "c mod 100"] by simp
    have b: "c = 100 * (c div 100) + c mod 100"
      by simp
    define A where "A = c div 100"
    define M where "M = c mod 100"
    define B where "B = M div 10"
    define D where "D = c mod 10"
    from a b have "M = 10 * B + D" "c = 100 * A + M"
      by (simp_all add: A_def M_def B_def D_def)
    then have "10 * (10 * A + B) + D = c"
      by simp
    then show ?thesis
      by (simp add: A_def M_def B_def D_def)
  qed
  finally show ?thesis .
qed

lemma decimal_value_body:
  assumes "CHR ''.'' \<notin> set ip" and "ip \<noteq> []" and "hd ip \<noteq> CHR ''-''"
  shows "decimal_value (ip @ CHR ''.'' # fp) = of_nat (read_nat (ip @ fp)) / 10 ^ length fp"
    and "decimal_value (CHR ''-'' # ip @ CHR ''.'' # fp) = - (of_nat (read_nat (ip @ fp)) / 10 ^ length fp)"
proof -
  have t: "takeWhile (\<lambda>c. c \<noteq> CHR ''.'') (ip @ CHR ''.'' # fp) = ip"
    using assms(1) by (induction ip) auto
  have d: "dropWhile (\<lambda>c. c \<noteq> CHR ''.'') (ip @ CHR ''.'' # fp) = CHR ''.'' # fp"
    using assms(1) by (induction ip) auto
  have h: "hd (ip @ CHR ''.'' # fp) \<noteq> CHR ''-''"
    using assms(2,3) by simp
  show "decimal_value (ip @ CHR ''.'' # fp) = of_nat (read_nat (ip @ fp)) / 10 ^ length fp"
    using h by (simp add: decimal_value_def t d Let_def)
  show "decimal_value (CHR ''-'' # ip @ CHR ''.'' # fp) = - (of_nat (read_nat (ip @ fp)) / 10 ^ length fp)"
    by (simp add: decimal_value_def t d Let_def)
qed

lemma hd_str_nat: "hd (str_nat n) \<noteq> CHR ''-''"
  using digits_no_point(2) [of n] str_nat_nonempty [of n] by (cases "str_nat n") auto

lemma decimal_value_format:
  "decimal_value (format_2f (Float r)) =
     (if r < 0 then - 1 else 1) * of_nat (nat (round_half_even (\<bar>r\<bar> * 100))) / 100"
proof -
  define c where "c = nat (round_half_even (\<bar>r\<bar> * 100))"
  let ?ip = "str_nat (c div 100)"
  let ?fp = "[digit_char (c mod 100 div 10), digit_char (c mod 10)]"
  have f: "format_2f (Float r) = (if r < 0 then ''-'' else '''') @ ?ip @ CHR ''.'' # ?fp"
    by (simp add: format_2f_def c_def Let_def)
  have v: "of_nat (read_nat (?ip @ ?fp)) / 10 ^ length ?fp = (of_nat c :: rat) / 100"
    by (simp add: read_back_digits)
  show ?thesis
  proof (cases "r < 0")
    case True
    then have "format_2f (Float r) = CHR ''-'' # ?ip @ CHR ''.'' # ?fp"
      by (simp add: f)
    then show ?thesis
      using decimal_value_body(2) [of ?ip ?fp] True v
      by (simp add: digits_no_point str_nat_nonempty hd_str_nat c_def)
  next
    case False
    then have "format_2f (Float r) = ?ip @ CHR ''.'' # ?fp"
      by (simp add: f)
    then show ?thesis
      using decimal_value_body(1) [of ?ip ?fp] False v
      by (simp add: digits_no_point str_nat_nonempty hd_str_nat c_def)
  qed
qed

lemma format_2f_close: "\<bar>decimal_value (format_2f (Float r)) - r\<bar> \<le> 1 / 200"
proof -
  define c where "c = round_half_even (\<bar>r\<bar> * 100)"
  have c0: "0 \<le> c"
    unfolding c_def by (rule round_half_even_nonneg) simp
  have b: "\<bar>of_int c - \<bar>r\<bar> * 100\<bar> \<le> 1 / 2"
    unfolding c_def by (rule round_half_even_bounds)
  have n: "(of_nat (nat c) :: rat) = of_int c"
    using c0 by simp
  have v: "decimal_value (format_2f (Float r)) = (if r < 0 then - 1 else 1) * of_int c / 100"
    using decimal_value_format [of r] n by (simp add: c_def)
  show ?thesis
  proof (cases "r < 0")
    case True
    with v have "decimal_value (format_2f (Float r)) - r = - (of_int c - \<bar>r\<bar> * 100) / 100"
      by (simp add: field_simps)
    also have "\<bar>\<dots>\<bar> = \<bar>of_int c - \<bar>r\<bar> * 100\<bar> / 100"
      by simp
    finally show ?thesis using b by simp
  next
    case False
    with v have "decimal_value (format_2f (Float r)) - r = (of_int c - \<bar>r\<bar> * 100) / 100"
      by (simp add: field_simps)
    also have "\<bar>\<dots>\<bar> = \<bar>of_int c - \<bar>r\<bar> * 100\<bar> / 100"
      by simp
    finally show ?thesis using b by simp
  qed
qed


lemma format_2f_shape:
  assumes "finite_float x"
  shows "\<exists>ip d1 d2. format_2f x = ip @ [CHR ''.'', d1, d2] \<and> ip \<noteq> [] \<and> CHR ''.'' \<notin> set ip \<and>
     d1 \<in> set ''0123456789'' \<and> d2 \<in> set ''0123456789''"
proof (cases x)
  case (Float r)
  define cents where "cents = nat (round_half_even (\<bar>r\<bar> * 100))"
  define ip where "ip = (if r < 0 then ''-'' else '''') @ str_nat (cents div 100)"
  have f: "format_2f x = ip @ [CHR ''.'', digit_char (cents mod 100 div 10), digit_char (cents mod 10)]"
    by (simp add: Float format_2f_def cents_def ip_def Let_def)
  have nodot: "CHR ''.'' \<notin> set ip"
    by (simp add: ip_def digits_no_point)
  have ne: "ip \<noteq> []"
    by (simp add: ip_def str_nat_nonempty)
  have "cents mod 100 div 10 < 10" by (simp add: div_less_iff_less_mult)
  then have d1: "digit_char (cents mod 100 div 10) \<in> set ''0123456789''"
    by (rule digit_char_digit)
  have "cents mod 10 < 10" by simp
  then have d2: "digit_char (cents mod 10) \<in> set ''0123456789''"
    by (rule digit_char_digit)
  from f nodot ne d1 d2 show ?thesis
    by blast
next
  case NegZero
  have "format_2f NegZero = ''-0'' @ [CHR ''.'', CHR ''0'', CHR ''0'']"
    by (simp add: format_2f_def)
  then show ?thesis
    unfolding NegZero by (intro exI [of _ "''-0''"] exI [of _ "CHR ''0''"]) simp
next
  case PosInf
  with assms show ?thesis by (simp add: finite_float_def)
next
  case NegInf
  with assms show ?thesis by (simp add: finite_float_def)
qed

lemma true_div_error: "b \<noteq> 0 \<Longrightarrow> true_div a b = Inl e \<Longrightarrow> e = OverflowError"
  by (auto simp: true_div_def Let_def split: if_splits)

lemma rate_of_error: "0 < t \<Longrightarrow> rate_of t m s = Inl e \<Longrightarrow> e = OverflowError"
  using true_div_error [of t "m + s" e] by (auto simp: rate_of_def split: sum.splits)

lemma stats_of_report:
  assumes "sr_data sa = Some d" and "sd_attributes d = Some a" and "sa_stats a = Some st"
  shows "static_lines (Some sa) = stats_lines st" and "conclusion_stats (Some sa) = st"
  using assms by (simp_all add: static_lines_def conclusion_stats_def py_get_def)

lemma stats_lines_eq:
  "stats_lines st =
     (case detection_rate (py_get (st_total st) 0) (py_get (st_malicious st) 0)
             (py_get (st_suspicious st) 0) of
        Inl e \<Rightarrow> Inl e
      | Inr rate \<Rightarrow>
          Inr [replicate 80 CHR ''-'', ''DETECTION STATISTICS'', replicate 80 CHR ''-'',
               ''Detection Rate: '' @ format_2f rate @ ''% (''
                 @ str_int (py_get (st_malicious st) 0 + py_get (st_suspicious st) 0) @ ''/''
                 @ str_int (py_get (st_total st) 0) @ '')'',
               ''  Malicious:  '' @ str_int (py_get (st_malicious st) 0),
               ''  Suspicious:  '' @ str_int (py_get (st_suspicious st) 0),
               ''  Undetected:  '' @ str_int (py_get (st_undetected st) 0),
               ''''])"
  by (simp add: stats_lines_def Let_def)

lemma verdict_of_eq:
  "verdict_of st =
     (if 0 < py_get (st_total st) 0 then
        (case rate_of (py_get (st_total st) 0) (py_get (st_malicious st) 0)
                (py_get (st_suspicious st) 0) of
           Inl e \<Rightarrow> Inl e
         | Inr rate \<Rightarrow>
             Inr (if float_ge rate 50 then ''HIGH RISK - This file is likely malicious''
                  else if float_ge rate 10 then
                    ''MEDIUM RISK - This file is suspicious and requires further investigation''
                  else ''LOW RISK - This file appears to be clean, but exercise caution''))
      else Inr ''UNKNOWN RISK - Insufficient data to determine risk level'')"
  by (simp add: verdict_of_def Let_def)

lemma report_entries_ok:
  assumes "static_lines (ar_static_analysis r) = Inr static"
    and "verdict_of (conclusion_stats (ar_static_analysis r)) = Inr v"
  shows "report_entries f r =
       Inr (file_lines (ar_file_info r) @ static @ dynamic_lines f (ar_dynamic_analysis r)
            @ [nl # replicate 80 CHR ''='', ''CONCLUSION'', replicate 80 CHR ''='', v])"
  using assms by (simp add: report_entries_def conclusion_lines_def)

lemma report_entries_error:
  "report_entries f r = Inl e \<longleftrightarrow>
     static_lines (ar_static_analysis r) = Inl e \<or>
     (\<exists>static. static_lines (ar_static_analysis r) = Inr static \<and>
        verdict_of (conclusion_stats (ar_static_analysis r)) = Inl e)"
  by (auto simp: report_entries_def conclusion_lines_def split: sum.splits)


lemma static_lines_error: "static_lines sa = Inl e \<Longrightarrow> e = OverflowError"
  by (auto simp: static_lines_def stats_lines_eq detection_rate_def
           split: option.splits sum.splits if_splits dest: rate_of_error)

lemma verdict_of_error: "verdict_of st = Inl e \<Longrightarrow> e = OverflowError"
  by (auto simp: verdict_of_eq split: sum.splits if_splits dest: rate_of_error)

lemma generate_report_error: "generate_report f r = Inl e \<Longrightarrow> e = OverflowError"
  by (auto simp: generate_report_def report_entries_error split: sum.splits
           dest: static_lines_error verdict_of_error)




lemma rate_of_Float:
  assumes "0 < t" and "rate_of t m s = Inr (Float x)"
  shows "x = float_round (float_round (of_int (m + s) / of_int t) * 100)"
  using assms
  by (auto simp: rate_of_def true_div_def float_mul_def Let_def split: if_splits sum.splits pyfloat.splits)

lemma generate_report_no_zero_division: "generate_report f r \<noteq> Inl ZeroDivisionError"
  using generate_report_error [of f r ZeroDivisionError] by auto

lemma format_50: "format_2f (Float 50) = ''50.00''"
  by (simp add: format_2f_def round_half_even_def str_nat.simps digit_char_def)

lemma str_small: "str_int 3 = ''3''" "str_int 2 = ''2''" "str_int 5 = ''5''" "str_int 10 = ''10''"
  "str_int 0 = ''0''" "str_int 1 = ''1''" "str_int 1234 = ''1234''"
  by (simp_all add: str_int_def str_nat.simps digit_char_def)

lemma stats_lines_example:
  "stats_lines ex_stats =
     Inr [replicate 80 CHR ''-'', ''DETECTION STATISTICS'', replicate 80 CHR ''-'',
          ''Detection Rate: 50.00% (5/10)'', ''  Malicious:  3'', ''  Suspicious:  2'',
          ''  Undetected:  5'', '''']"
  by (simp add: stats_lines_eq ex_stats_def py_get_def detection_rate_def rate_10_3_2 format_50
        str_small)

lemma stats_lines_inf:
  "stats_lines (stats_example 1 (2 ^ 1020) 0) =
     Inr [replicate 80 CHR ''-'', ''DETECTION STATISTICS'', replicate 80 CHR ''-'',
          ''Detection Rate: inf% ('' @ str_int (2 ^ 1020) @ ''/1)'',
          ''  Malicious:  '' @ str_int (2 ^ 1020), ''  Suspicious:  0'', ''  Undetected:  0'', '''']"
  using rate_inf
  by (simp add: stats_lines_eq stats_example_def py_get_def detection_rate_def format_2f_def str_small
        del: power_numeral)

lemma verdict_example: "verdict_of ex_stats = Inr ''HIGH RISK - This file is likely malicious''"
  by (simp add: verdict_of_eq ex_stats_def py_get_def rate_10_3_2 float_ge_def)

lemma report_entries_example:
  "report_entries f (results_of_stats ex_stats) =
     Inr [replicate 80 CHR ''='', ''MALWARE ANALYSIS REPORT'', replicate 80 CHR ''='',
          ''File Name: sample.exe'', ''File Size: 1234 bytes'', ''File Path: /tmp/sample.exe'',
          ''Analysis Time: 2024-01-01 00:00:00'', '''', ''File Hashes:'', ''  MD5:    md5'',
          ''  SHA-1:  sha1'', ''  SHA-256: abc123'', '''',
          replicate 80 CHR ''-'', ''DETECTION STATISTICS'', replicate 80 CHR ''-'',
          ''Detection Rate: 50.00% (5/10)'', ''  Malicious:  3'', ''  Suspicious:  2'',
          ''  Undetected:  5'', '''',
          replicate 80 CHR ''-'', ''DYNAMIC ANALYSIS RESULTS'', replicate 80 CHR ''-'',
          ''No dynamic analysis data available for this file'',
          nl # replicate 80 CHR ''='', ''CONCLUSION'', replicate 80 CHR ''='',
          ''HIGH RISK - This file is likely malicious'']"
proof -
  have s: "static_lines (ar_static_analysis (results_of_stats ex_stats)) = stats_lines ex_stats"
    and c: "conclusion_stats (ar_static_analysis (results_of_stats ex_stats)) = ex_stats"
    by (simp_all add: results_of_stats_def report_with_stats_def static_lines_def
          conclusion_stats_def py_get_def)
  show ?thesis
    using report_entries_ok [of "results_of_stats ex_stats" _ _ f] s c stats_lines_example verdict_example
    by (simp add: results_of_stats_def file_lines_def ex_file_info_def dynamic_lines_def
          no_data_lines_def str_small)
qed

lemma set_iteration_remdups: "set_iteration remdups"
  by (simp add: set_iteration_def)

lemma set_iteration_rev_remdups: "set_iteration (\<lambda>xs. rev (remdups xs))"
  by (simp add: set_iteration_def)

lemma set_iteration_Nil: "set_iteration f \<Longrightarrow> f xs = [] \<longleftrightarrow> xs = []"
  by (metis set_iteration_def set_empty)

lemma set_iteration_mset: "set_iteration f \<Longrightarrow> set_iteration g \<Longrightarrow> mset (f xs) = mset (g xs)"
  by (metis set_iteration_def set_eq_iff_mset_eq_distinct)

lemma set_iteration_single:
  assumes "set_iteration f" and "set xs = {x}"
  shows "f xs = [x]"
proof -
  from assms have d: "distinct (f xs)" and s: "set (f xs) = {x}"
    by (simp_all add: set_iteration_def)
  then have "length (f xs) = card {x}"
    using distinct_card by metis
  then have "length (f xs) = 1" by simp
  with s show ?thesis
    by (cases "f xs") auto
qed

lemma summary_lines_eq:
  "set_iteration f \<Longrightarrow>
   summary_lines f data =
     (nl # ''Behavioral Summary:'')
     # (if behaviors_of data = [] then [''  * No significant suspicious behaviors detected'']
        else map flag_entry (f (behaviors_of data)))"
  by (auto simp: summary_lines_def Let_def set_iteration_Nil flag_entry_def)

lemma inj_flag_entry: "inj flag_entry"
  by (simp add: inj_on_def flag_entry_def)

lemma distinct_summary_lines:
  assumes "set_iteration f"
  shows "distinct (summary_lines f data)"
proof -
  have "distinct (f (behaviors_of data))"
    using assms by (simp add: set_iteration_def)
  then have "distinct (map flag_entry (f (behaviors_of data)))"
    using inj_flag_entry by (simp add: distinct_map inj_on_def)
  moreover have "nl # ''Behavioral Summary:'' \<notin> set (map flag_entry (f (behaviors_of data)))"
    by (auto simp: flag_entry_def nl_def)
  ultimately show ?thesis
    by (simp add: summary_lines_eq [OF assms] nl_def)
qed

lemma count_list_distinct: "distinct xs \<Longrightarrow> x \<in> set xs \<Longrightarrow> count_list xs x = 1"
  by (induction xs) auto

lemma behaviors_http: "sandbox_behaviors http_sandbox = [''Network communication detected'']"
  by (simp add: sandbox_behaviors_def http_sandbox_def py_get_def empty_registry_def)

lemma behaviors_quiet: "sandbox_behaviors quiet_sandbox = []"
  by (simp add: sandbox_behaviors_def quiet_sandbox_def py_get_def empty_registry_def
        empty_sandbox_attributes_def empty_network_def)

lemma dynamic_lines_present:
  "data \<noteq> [] \<Longrightarrow>
   dynamic_lines f (Some \<lparr>br_data = Some data\<rparr>) =
     [replicate 80 CHR ''-'', ''DYNAMIC ANALYSIS RESULTS'', replicate 80 CHR ''-'']
     @ detail_lines data @ summary_lines f data"
  by (simp add: dynamic_lines_def)


lemma report_entries_cases:
  "(\<exists>static v. \<forall>f. report_entries f r =
       Inr (file_lines (ar_file_info r) @ static @ dynamic_lines f (ar_dynamic_analysis r)
            @ [nl # replicate 80 CHR ''='', ''CONCLUSION'', replicate 80 CHR ''='', v]))
   \<or> (\<forall>f. report_entries f r = Inl OverflowError)"
proof (cases "static_lines (ar_static_analysis r)")
  case (Inl e)
  then have "e = OverflowError" by (rule static_lines_error)
  with Inl show ?thesis by (simp add: report_entries_def)
next
  case (Inr static)
  show ?thesis
  proof (cases "verdict_of (conclusion_stats (ar_static_analysis r))")
    case (Inl e)
    then have "e = OverflowError" by (rule verdict_of_error)
    with Inl Inr show ?thesis by (simp add: report_entries_def conclusion_lines_def)
  next
    case v: (Inr v)
    from report_entries_ok [OF Inr v] show ?thesis by blast
  qed
qed

lemma report_entries_results_with:
  "report_entries f (results_with dyn) =
     Inr (file_lines ex_file_info
          @ [replicate 80 CHR ''-'', ''DETECTION STATISTICS'', replicate 80 CHR ''-'',
             ''Detection Rate: 50.00% (5/10)'', ''  Malicious:  3'', ''  Suspicious:  2'',
             ''  Undetected:  5'', '''']
          @ dynamic_lines f dyn
          @ [nl # replicate 80 CHR ''='', ''CONCLUSION'', replicate 80 CHR ''='',
             ''HIGH RISK - This file is likely malicious''])"
proof -
  have s: "static_lines (ar_static_analysis (results_with dyn)) = stats_lines ex_stats"
    and c: "conclusion_stats (ar_static_analysis (results_with dyn)) = ex_stats"
    by (simp_all add: results_with_def report_with_stats_def static_lines_def
          conclusion_stats_def py_get_def)
  show ?thesis
    using report_entries_ok [of "results_with dyn" _ _ f] s c stats_lines_example verdict_example
    by (simp add: results_with_def)
qed

lemma join_nl_append:
  "xs \<noteq> [] \<Longrightarrow> ys \<noteq> [] \<Longrightarrow> join_nl (xs @ ys) = join_nl xs @ nl # join_nl ys"
proof (induction xs rule: join_nl.induct)
  case 1
  then show ?case by simp
next
  case (2 x)
  then show ?case by (cases ys) auto
next
  case (3 x y zs)
  then show ?case by simp
qed

lemma join_nl_middle:
  assumes "A \<noteq> []" and "B \<noteq> []"
  shows "join_nl (A @ M @ B) = join_nl A @ nl # concat (map (\<lambda>x. x @ [nl]) M) @ join_nl B"
proof -
  have "join_nl (M @ B) = concat (map (\<lambda>x. x @ [nl]) M) @ join_nl B"
  proof (induction M)
    case Nil
    show ?case by simp
  next
    case (Cons x M)
    have "join_nl ((x # M) @ B) = join_nl ([x] @ (M @ B))" by simp
    also have "\<dots> = join_nl [x] @ nl # join_nl (M @ B)"
      using assms(2) by (intro join_nl_append) auto
    finally show ?case using Cons.IH by simp
  qed
  moreover have "join_nl (A @ M @ B) = join_nl A @ nl # join_nl (M @ B)"
    using assms by (intro join_nl_append) auto
  ultimately show ?thesis by simp
qed

lemma dynamic_lines_split:
  "\<exists>pre post. \<forall>f. set_iteration f \<longrightarrow>
     dynamic_lines f (ar_dynamic_analysis r) = pre @ map flag_entry (f (report_flags r)) @ post"
proof (cases "ar_dynamic_analysis r")
  case None
  then have "\<forall>f. set_iteration f \<longrightarrow>
     dynamic_lines f (ar_dynamic_analysis r) = no_data_lines @ map flag_entry (f (report_flags r)) @ []"
    by (simp add: dynamic_lines_def report_flags_def set_iteration_Nil)
  then show ?thesis by blast
next
  case (Some da)
  show ?thesis
  proof (cases "br_data da")
    case None
    with Some have "\<forall>f. set_iteration f \<longrightarrow>
       dynamic_lines f (ar_dynamic_analysis r) = no_data_lines @ map flag_entry (f (report_flags r)) @ []"
      by (simp add: dynamic_lines_def report_flags_def set_iteration_Nil)
    then show ?thesis by blast
  next
    case (Some data)
    note data = \<open>ar_dynamic_analysis r = Some da\<close> Some
    show ?thesis
    proof (cases "data = []")
      case True
      with data have "\<forall>f. set_iteration f \<longrightarrow>
         dynamic_lines f (ar_dynamic_analysis r) = [] @ map flag_entry (f (report_flags r)) @ []"
        by (simp add: dynamic_lines_def report_flags_def behaviors_of_def set_iteration_Nil)
      then show ?thesis by blast
    next
      case False
      let ?pre = "[replicate 80 CHR ''-'', ''DYNAMIC ANALYSIS RESULTS'', replicate 80 CHR ''-'']
                  @ detail_lines data @ [nl # ''Behavioral Summary:'']"
      let ?post = "if behaviors_of data = []
                   then [''  * No significant suspicious behaviors detected''] else []"
      from data False have "\<forall>f. set_iteration f \<longrightarrow>
         dynamic_lines f (ar_dynamic_analysis r) = ?pre @ map flag_entry (f (report_flags r)) @ ?post"
        by (simp add: dynamic_lines_def report_flags_def summary_lines_eq set_iteration_Nil)
      then show ?thesis by blast
    qed
  qed
qed

lemma report_text_split:
  "(\<forall>f. generate_report f r = Inl OverflowError) \<or>
   (\<exists>pre post. \<forall>f. set_iteration f \<longrightarrow>
      generate_report f r = Inr (pre @ flag_text (f (report_flags r)) @ post))"
proof -
  obtain dpre dpost where d: "\<forall>f. set_iteration f \<longrightarrow>
     dynamic_lines f (ar_dynamic_analysis r) = dpre @ map flag_entry (f (report_flags r)) @ dpost"
    using dynamic_lines_split by blast
  from report_entries_cases [of r] show ?thesis
  proof
    assume "\<forall>f. report_entries f r = Inl OverflowError"
    then have "\<forall>f. generate_report f r = Inl OverflowError"
      by (simp add: generate_report_def)
    then show ?thesis ..
  next
    assume "\<exists>static v. \<forall>f. report_entries f r =
       Inr (file_lines (ar_file_info r) @ static @ dynamic_lines f (ar_dynamic_analysis r)
            @ [nl # replicate 80 CHR ''='', ''CONCLUSION'', replicate 80 CHR ''='', v])"
    then obtain static v where e: "report_entries f r =
       Inr (file_lines (ar_file_info r) @ static @ dynamic_lines f (ar_dynamic_analysis r)
            @ [nl # replicate 80 CHR ''='', ''CONCLUSION'', replicate 80 CHR ''='', v])" for f
      by blast
    let ?A = "file_lines (ar_file_info r) @ static @ dpre"
    let ?B = "dpost @ [nl # replicate 80 CHR ''='', ''CONCLUSION'', replicate 80 CHR ''='', v]"
    have A: "?A \<noteq> []" by (simp add: file_lines_def)
    have B: "?B \<noteq> []" by simp
    have "\<forall>f. set_iteration f \<longrightarrow>
       generate_report f r = Inr ((join_nl ?A @ [nl]) @ flag_text (f (report_flags r)) @ join_nl ?B)"
    proof (intro allI impI)
      fix f assume f: "set_iteration f"
      with d have "report_entries f r = Inr (?A @ map flag_entry (f (report_flags r)) @ ?B)"
        by (simp add: e)
      then have "generate_report f r = Inr (join_nl (?A @ map flag_entry (f (report_flags r)) @ ?B))"
        by (simp add: generate_report_def)
      also have "join_nl (?A @ map flag_entry (f (report_flags r)) @ ?B) =
         join_nl ?A @ nl # concat (map (\<lambda>x. x @ [nl]) (map flag_entry (f (report_flags r)))) @ join_nl ?B"
        using A B by (rule join_nl_middle)
      finally show "generate_report f r = Inr ((join_nl ?A @ [nl]) @ flag_text (f (report_flags r)) @ join_nl ?B)"
        by (simp add: flag_text_def comp_def)
    qed
    then show ?thesis by blast
  qed
qed

lemma generate_report_results_with: "\<exists>text'. generate_report f (results_with dyn) = Inr text'"
  by (simp add: generate_report_def report_entries_results_with)

lemma generate_report_order_cong:
  "f (report_flags r) = g (report_flags r) \<Longrightarrow> generate_report f r = generate_report g r"
  by (auto simp: generate_report_def report_entries_def dynamic_lines_def summary_lines_def
        report_flags_def split: option.splits sum.splits)

lemma set_iteration_card_le_1:
  assumes "set_iteration f" and "set_iteration g" and "card (set xs) \<le> 1"
  shows "f xs = g xs"
proof (cases "xs = []")
  case True
  with assms show ?thesis
    using set_iteration_Nil [of f "[]"] set_iteration_Nil [of g "[]"] by simp
next
  case False
  then have "card (set xs) \<noteq> 0" by simp
  with assms(3) have "card (set xs) = 1" by linarith
  then obtain x where "set xs = {x}"
    by (auto simp: card_1_singleton_iff)
  with assms show ?thesis
    by (simp add: set_iteration_single)
qed

lemma behaviors_injecting:
  "sandbox_behaviors injecting_sandbox =
     [''Process injection detected'', ''Network communication detected'']"
  by (simp add: sandbox_behaviors_def injecting_sandbox_def py_get_def empty_registry_def
        lower_def lower_char_def)

lemma report_flags_two:
  "report_flags (results_with (Some \<lparr>br_data = Some [injecting_sandbox]\<rparr>)) =
     [''Process injection detected'', ''Network communication detected'']"
  by (simp add: report_flags_def results_with_def behaviors_of_def behaviors_injecting)



text \<open>
  Claim C4 says that the rate is printed with two decimal places whenever the static
  report holds stats. With total=1 and malicious=\<open>2 ^ 1020\<close> the quotient is a double but
  its product with 100 is not: the rate is the infinity and the line reads
  \<^verbatim>\<open>Detection Rate: inf% (...)\<close>. With malicious=\<open>2 ^ 1024\<close> the quotient itself is
  beyond the doubles: the division raises \<^verbatim>\<open>OverflowError\<close> and no report is made.
\<close>

theorem rate_range_counterexample:
  "rate_of 1 (2 ^ 1020) 0 = Inr PosInf \<and>
   stats_lines (stats_example 1 (2 ^ 1020) 0) =
     Inr [replicate 80 CHR ''-'', ''DETECTION STATISTICS'', replicate 80 CHR ''-'',
          ''Detection Rate: inf% ('' @ str_int (2 ^ 1020) @ ''/1)'',
          ''  Malicious:  '' @ str_int (2 ^ 1020), ''  Suspicious:  0'', ''  Undetected:  0'', ''''] \<and>
   static_lines (ar_static_analysis (results_of_stats (stats_example 1 (2 ^ 1020) 0))) =
     stats_lines (stats_example 1 (2 ^ 1020) 0) \<and>
   generate_report remdups (results_of_stats (stats_example 1 (2 ^ 1024) 0)) = Inl OverflowError"
proof -
  have s: "static_lines (ar_static_analysis (results_of_stats st)) = stats_lines st" for st
    by (simp add: results_of_stats_def report_with_stats_def static_lines_def)
  have "stats_lines (stats_example 1 (2 ^ 1024) 0) = Inl OverflowError"
    using rate_overflow
    by (simp add: stats_lines_eq stats_example_def py_get_def detection_rate_def del: power_numeral)
  then have "generate_report remdups (results_of_stats (stats_example 1 (2 ^ 1024) 0)) = Inl OverflowError"
    by (simp add: generate_report_def report_entries_def s)
  with rate_inf stats_lines_inf s show ?thesis
    by blast
qed

text \<open>
  Claim C4, amended. When the static report holds \<^verbatim>\<open>data.attributes.stats\<close>, with \<open>t\<close>, \<open>m\<close>
  and \<open>s\<close> its \<^verbatim>\<open>total\<close>, \<^verbatim>\<open>malicious\<close> and \<^verbatim>\<open>suspicious\<close> (0 for a missing key), the
  rate is \<^verbatim>\<open>(m + s) / t * 100\<close> when \<open>t > 0\<close>, the quotient and the product each rounded to
  the nearest double, and 0 otherwise; the division is never reached with a zero
  denominator, so the generator never raises \<^verbatim>\<open>ZeroDivisionError\<close>. Whenever the rate is
  computed, the report holds the line with the rate and the counts \<open>m + s\<close> and \<open>t\<close>,
  followed by the three count lines. A rate that is a number is printed with exactly two
  digits after the point, and the printed decimal differs from the rate by at most
  0.005. The stats malicious=3, suspicious=2, undetected=5, total=10 give the line
  \<^verbatim>\<open>Detection Rate: 50.00% (5/10)\<close>.
\<close>

theorem detection_rate_line:
  "(ar_static_analysis r = Some sa \<and> sr_data sa = Some d \<and> sd_attributes d = Some a \<and>
    sa_stats a = Some st \<and> py_get (st_total st) 0 = t \<and> py_get (st_malicious st) 0 = m \<and>
    py_get (st_suspicious st) 0 = s \<longrightarrow>
      detection_rate t m s = (if 0 < t then rate_of t m s else Inr (Float 0)) \<and>
      (0 < t \<and> rate_of t m s = Inr (Float x) \<longrightarrow>
         x = float_round (float_round (of_int (m + s) / of_int t) * 100)) \<and>
      (detection_rate t m s = Inr rate \<longrightarrow>
         (\<exists>pre post. report_entries f r =
            Inr (pre @ [''Detection Rate: '' @ format_2f rate @ ''% ('' @ str_int (m + s) @ ''/''
                          @ str_int t @ '')'',
                        ''  Malicious:  '' @ str_int m,
                        ''  Suspicious:  '' @ str_int s,
                        ''  Undetected:  '' @ str_int (py_get (st_undetected st) 0)] @ post))))
   \<and> generate_report f r \<noteq> Inl ZeroDivisionError
   \<and> (finite_float y \<longrightarrow>
        (\<exists>ip d1 d2. format_2f y = ip @ [CHR ''.'', d1, d2] \<and> ip \<noteq> [] \<and> CHR ''.'' \<notin> set ip \<and>
           d1 \<in> set ''0123456789'' \<and> d2 \<in> set ''0123456789''))
   \<and> \<bar>decimal_value (format_2f (Float q)) - q\<bar> \<le> 1 / 200
   \<and> stats_lines \<lparr>st_total = Some 10, st_malicious = Some 3, st_suspicious = Some 2,
                   st_undetected = Some 5\<rparr> =
         Inr [replicate 80 CHR ''-'', ''DETECTION STATISTICS'', replicate 80 CHR ''-'',
              ''Detection Rate: 50.00% (5/10)'', ''  Malicious:  3'', ''  Suspicious:  2'',
              ''  Undetected:  5'', '''']"
proof (intro conjI impI)
  assume h: "ar_static_analysis r = Some sa \<and> sr_data sa = Some d \<and> sd_attributes d = Some a \<and>
    sa_stats a = Some st \<and> py_get (st_total st) 0 = t \<and> py_get (st_malicious st) 0 = m \<and>
    py_get (st_suspicious st) 0 = s"
  show "detection_rate t m s = (if 0 < t then rate_of t m s else Inr (Float 0))"
    by (simp add: detection_rate_def)
  show "x = float_round (float_round (of_int (m + s) / of_int t) * 100)"
    if "0 < t \<and> rate_of t m s = Inr (Float x)"
    using that rate_of_Float by blast
  show "\<exists>pre post. report_entries f r =
            Inr (pre @ [''Detection Rate: '' @ format_2f rate @ ''% ('' @ str_int (m + s) @ ''/''
                          @ str_int t @ '')'',
                        ''  Malicious:  '' @ str_int m,
                        ''  Suspicious:  '' @ str_int s,
                        ''  Undetected:  '' @ str_int (py_get (st_undetected st) 0)] @ post)"
    if dr: "detection_rate t m s = Inr rate"
  proof -
    let ?lines = "[''Detection Rate: '' @ format_2f rate @ ''% ('' @ str_int (m + s) @ ''/''
                          @ str_int t @ '')'',
                        ''  Malicious:  '' @ str_int m,
                        ''  Suspicious:  '' @ str_int s,
                        ''  Undetected:  '' @ str_int (py_get (st_undetected st) 0)]"
    let ?static = "[replicate 80 CHR ''-'', ''DETECTION STATISTICS'', replicate 80 CHR ''-'']
                   @ ?lines @ ['''']"
    from h have s: "static_lines (ar_static_analysis r) = stats_lines st"
      and c: "conclusion_stats (ar_static_analysis r) = st"
      using stats_of_report [of sa d a st] by simp_all
    from h dr have sl: "stats_lines st = Inr ?static"
      by (simp add: stats_lines_eq)
    have "\<exists>v. verdict_of st = Inr v"
    proof (cases "0 < t")
      case True
      with dr obtain rate' where "rate_of t m s = Inr rate'"
        by (auto simp: detection_rate_def)
      with True h show ?thesis by (simp add: verdict_of_eq)
    next
      case False
      with h show ?thesis by (simp add: verdict_of_eq)
    qed
    then obtain v where v: "verdict_of st = Inr v" ..
    have "report_entries f r =
       Inr ((file_lines (ar_file_info r)
             @ [replicate 80 CHR ''-'', ''DETECTION STATISTICS'', replicate 80 CHR ''-''])
            @ ?lines
            @ ('''' # dynamic_lines f (ar_dynamic_analysis r)
               @ [nl # replicate 80 CHR ''='', ''CONCLUSION'', replicate 80 CHR ''='', v]))"
      using report_entries_ok [of r ?static v f] s c sl v by simp
    then show ?thesis by blast
  qed
next
  show "generate_report f r \<noteq> Inl ZeroDivisionError"
    by (rule generate_report_no_zero_division)
next
  assume "finite_float y"
  then show "\<exists>ip d1 d2. format_2f y = ip @ [CHR ''.'', d1, d2] \<and> ip \<noteq> [] \<and> CHR ''.'' \<notin> set ip \<and>
           d1 \<in> set ''0123456789'' \<and> d2 \<in> set ''0123456789''"
    by (rule format_2f_shape)
next
  show "\<bar>decimal_value (format_2f (Float q)) - q\<bar> \<le> 1 / 200"
    by (rule format_2f_close)
next
  show "stats_lines \<lparr>st_total = Some 10, st_malicious = Some 3, st_suspicious = Some 2,
                   st_undetected = Some 5\<rparr> =
         Inr [replicate 80 CHR ''-'', ''DETECTION STATISTICS'', replicate 80 CHR ''-'',
              ''Detection Rate: 50.00% (5/10)'', ''  Malicious:  3'', ''  Suspicious:  2'',
              ''  Undetected:  5'', '''']"
    using stats_lines_example by (simp add: ex_stats_def)
qed

theorem detection_rate_line_witness:
  "detection_rate 10 3 2 = Inr (Float 50) \<and>
   rate_of 10 3 2 = Inr (Float 50) \<and>
   (50 :: rat) = float_round (float_round (of_int (3 + 2) / of_int 10) * 100) \<and>
   finite_float (Float 50) \<and>
   format_2f (Float 50) = ''50.00'' \<and>
   (\<exists>pre post. report_entries remdups (results_of_stats ex_stats) =
      Inr (pre @ [''Detection Rate: 50.00% (5/10)'', ''  Malicious:  3'', ''  Suspicious:  2'',
                  ''  Undetected:  5''] @ post)) \<and>
   report_entries remdups (results_of_stats ex_stats) =
     Inr [replicate 80 CHR ''='', ''MALWARE ANALYSIS REPORT'', replicate 80 CHR ''='',
          ''File Name: sample.exe'', ''File Size: 1234 bytes'', ''File Path: /tmp/sample.exe'',
          ''Analysis Time: 2024-01-01 00:00:00'', '''', ''File Hashes:'', ''  MD5:    md5'',
          ''  SHA-1:  sha1'', ''  SHA-256: abc123'', '''',
          replicate 80 CHR ''-'', ''DETECTION STATISTICS'', replicate 80 CHR ''-'',
          ''Detection Rate: 50.00% (5/10)'', ''  Malicious:  3'', ''  Suspicious:  2'',
          ''  Undetected:  5'', '''',
          replicate 80 CHR ''-'', ''DYNAMIC ANALYSIS RESULTS'', replicate 80 CHR ''-'',
          ''No dynamic analysis data available for this file'',
          nl # replicate 80 CHR ''='', ''CONCLUSION'', replicate 80 CHR ''='',
          ''HIGH RISK - This file is likely malicious'']"
proof -
  have dr: "detection_rate 10 3 2 = Inr (Float 50)"
    by (simp add: detection_rate_def rate_10_3_2)
  note inst = detection_rate_line [where f = remdups and r = "results_of_stats ex_stats"
      and sa = "report_with_stats ex_stats" and d = "data_with_stats ex_stats"
      and a = "attributes_with_stats ex_stats" and st = ex_stats
      and t = 10 and m = 3 and s = 2 and x = 50 and rate = "Float 50" and y = "Float 50" and q = 50]
  have hyp: "ar_static_analysis (results_of_stats ex_stats) = Some (report_with_stats ex_stats) \<and>
      sr_data (report_with_stats ex_stats) = Some (data_with_stats ex_stats) \<and>
      sd_attributes (data_with_stats ex_stats) = Some (attributes_with_stats ex_stats) \<and>
      sa_stats (attributes_with_stats ex_stats) = Some ex_stats \<and>
      py_get (st_total ex_stats) 0 = 10 \<and> py_get (st_malicious ex_stats) 0 = 3 \<and>
      py_get (st_suspicious ex_stats) 0 = 2"
    by (simp add: results_of_stats_def report_with_stats_def data_with_stats_def
          attributes_with_stats_def ex_stats_def py_get_def)
  from inst hyp have formula: "(50 :: rat) = float_round (float_round (of_int (3 + 2) / of_int 10) * 100)"
    using rate_10_3_2 by simp
  from inst hyp dr have line: "\<exists>pre post. report_entries remdups (results_of_stats ex_stats) =
      Inr (pre @ [''Detection Rate: '' @ format_2f (Float 50) @ ''% ('' @ str_int (3 + 2) @ ''/''
                          @ str_int 10 @ '')'',
                        ''  Malicious:  '' @ str_int 3,
                        ''  Suspicious:  '' @ str_int 2,
                        ''  Undetected:  '' @ str_int (py_get (st_undetected ex_stats) 0)] @ post)"
    by simp
  have u: "py_get (st_undetected ex_stats) 0 = 5"
    by (simp add: ex_stats_def py_get_def)
  from line have line': "\<exists>pre post. report_entries remdups (results_of_stats ex_stats) =
      Inr (pre @ [''Detection Rate: 50.00% (5/10)'', ''  Malicious:  3'', ''  Suspicious:  2'',
                  ''  Undetected:  5''] @ post)"
    by (simp add: u format_50 str_small)
  from dr rate_10_3_2 formula format_50 line' report_entries_example [of remdups]
  show ?thesis
    by (simp add: finite_float_def)
qed

text \<open>
  Claim C8. Whatever order \<^verbatim>\<open>list(set(behaviors))\<close> lists the flags in, the entries of the
  behavioral summary are pairwise different, so a flag's line stands there exactly once
  however many sandbox records raise it; when no record raises a flag the summary is its
  heading and the one line that says no significant suspicious behaviors were detected;
  for a non-empty record list the summary is part of the report, unless the rate's
  division overflows, which is the one way the generator fails. Two records with an
  HTTP request each give one \<^verbatim>\<open>Network communication detected\<close> line.
\<close>

theorem summary_flags_once:
  "set_iteration f \<longrightarrow>
     distinct (summary_lines f data) \<and>
     (b \<in> set (behaviors_of data) \<longrightarrow> count_list (summary_lines f data) (flag_entry b) = 1) \<and>
     (behaviors_of data = [] \<longrightarrow>
        summary_lines f data =
          [nl # ''Behavioral Summary:'', ''  * No significant suspicious behaviors detected'']) \<and>
     (ar_dynamic_analysis r = Some \<lparr>br_data = Some data\<rparr> \<and> data \<noteq> [] \<longrightarrow>
        report_entries f r = Inl OverflowError \<or>
        (\<exists>pre post. report_entries f r = Inr (pre @ summary_lines f data @ post))) \<and>
     summary_lines f [http_sandbox, http_sandbox] =
       [nl # ''Behavioral Summary:'', ''  * Network communication detected'']"
proof
  assume f: "set_iteration f"
  have d: "distinct (summary_lines f data)"
    using f by (rule distinct_summary_lines)
  have once: "b \<in> set (behaviors_of data) \<longrightarrow> count_list (summary_lines f data) (flag_entry b) = 1"
  proof
    assume b: "b \<in> set (behaviors_of data)"
    then have "behaviors_of data \<noteq> []" by auto
    moreover from b f have "b \<in> set (f (behaviors_of data))"
      by (simp add: set_iteration_def)
    ultimately have "flag_entry b \<in> set (summary_lines f data)"
      by (simp add: summary_lines_eq [OF f])
    with d show "count_list (summary_lines f data) (flag_entry b) = 1"
      by (rule count_list_distinct)
  qed
  have none: "behaviors_of data = [] \<longrightarrow>
        summary_lines f data =
          [nl # ''Behavioral Summary:'', ''  * No significant suspicious behaviors detected'']"
    by (simp add: summary_lines_eq [OF f])
  have inrep: "ar_dynamic_analysis r = Some \<lparr>br_data = Some data\<rparr> \<and> data \<noteq> [] \<longrightarrow>
        report_entries f r = Inl OverflowError \<or>
        (\<exists>pre post. report_entries f r = Inr (pre @ summary_lines f data @ post))"
  proof
    assume h: "ar_dynamic_analysis r = Some \<lparr>br_data = Some data\<rparr> \<and> data \<noteq> []"
    from h have dl: "dynamic_lines f (ar_dynamic_analysis r) =
       [replicate 80 CHR ''-'', ''DYNAMIC ANALYSIS RESULTS'', replicate 80 CHR ''-'']
       @ detail_lines data @ summary_lines f data"
      by (simp add: dynamic_lines_present)
    from report_entries_cases [of r]
    show "report_entries f r = Inl OverflowError \<or>
        (\<exists>pre post. report_entries f r = Inr (pre @ summary_lines f data @ post))"
    proof
      assume "\<exists>static v. \<forall>f. report_entries f r =
         Inr (file_lines (ar_file_info r) @ static @ dynamic_lines f (ar_dynamic_analysis r)
              @ [nl # replicate 80 CHR ''='', ''CONCLUSION'', replicate 80 CHR ''='', v])"
      then obtain static v where "report_entries f r =
         Inr (file_lines (ar_file_info r) @ static @ dynamic_lines f (ar_dynamic_analysis r)
              @ [nl # replicate 80 CHR ''='', ''CONCLUSION'', replicate 80 CHR ''='', v])"
        by blast
      with dl have "report_entries f r =
         Inr ((file_lines (ar_file_info r) @ static
               @ [replicate 80 CHR ''-'', ''DYNAMIC ANALYSIS RESULTS'', replicate 80 CHR ''-'']
               @ detail_lines data)
              @ summary_lines f data
              @ [nl # replicate 80 CHR ''='', ''CONCLUSION'', replicate 80 CHR ''='', v])"
        by simp
      then show ?thesis by blast
    next
      assume "\<forall>f. report_entries f r = Inl OverflowError"
      then show ?thesis by simp
    qed
  qed
  have "set (behaviors_of [http_sandbox, http_sandbox]) = {''Network communication detected''}"
    by (simp add: behaviors_of_def behaviors_http)
  with f have "f (behaviors_of [http_sandbox, http_sandbox]) = [''Network communication detected'']"
    by (rule set_iteration_single)
  then have two: "summary_lines f [http_sandbox, http_sandbox] =
       [nl # ''Behavioral Summary:'', ''  * Network communication detected'']"
    by (simp add: summary_lines_def)
  from d once none inrep two
  show "distinct (summary_lines f data) \<and>
     (b \<in> set (behaviors_of data) \<longrightarrow> count_list (summary_lines f data) (flag_entry b) = 1) \<and>
     (behaviors_of data = [] \<longrightarrow>
        summary_lines f data =
          [nl # ''Behavioral Summary:'', ''  * No significant suspicious behaviors detected'']) \<and>
     (ar_dynamic_analysis r = Some \<lparr>br_data = Some data\<rparr> \<and> data \<noteq> [] \<longrightarrow>
        report_entries f r = Inl OverflowError \<or>
        (\<exists>pre post. report_entries f r = Inr (pre @ summary_lines f data @ post))) \<and>
     summary_lines f [http_sandbox, http_sandbox] =
       [nl # ''Behavioral Summary:'', ''  * Network communication detected'']"
    by blast
qed

theorem summary_flags_once_witness:
  "set_iteration remdups \<and>
   ''Network communication detected'' \<in> set (behaviors_of [http_sandbox, http_sandbox]) \<and>
   count_list (summary_lines remdups [http_sandbox, http_sandbox])
     (flag_entry ''Network communication detected'') = 1 \<and>
   behaviors_of [quiet_sandbox] = [] \<and>
   summary_lines remdups [quiet_sandbox] =
     [nl # ''Behavioral Summary:'', ''  * No significant suspicious behaviors detected''] \<and>
   (\<exists>pre post. report_entries remdups (results_with (Some \<lparr>br_data = Some [http_sandbox, http_sandbox]\<rparr>)) =
      Inr (pre @ summary_lines remdups [http_sandbox, http_sandbox] @ post))"
  using summary_flags_once [where f = remdups and data = "[http_sandbox, http_sandbox]"
      and b = "''Network communication detected''"
      and r = "results_with (Some \<lparr>br_data = Some [http_sandbox, http_sandbox]\<rparr>)"]
    summary_flags_once [where f = remdups and data = "[quiet_sandbox]"]
  by (simp add: set_iteration_remdups behaviors_of_def behaviors_http behaviors_quiet
        report_entries_results_with) (simp add: results_with_def)

text \<open>
  Claim C6 says that two runs of the generator on the same input give the same text, the
  order of the flag lines included. On a record that raises two flags, the two orders in
  which a set of two strings can be listed give two different texts.
\<close>

theorem flag_order_counterexample:
  "set_iteration remdups \<and> set_iteration (\<lambda>xs. rev (remdups xs)) \<and>
   generate_report remdups (results_with (Some \<lparr>br_data = Some [injecting_sandbox]\<rparr>)) \<noteq>
   generate_report (\<lambda>xs. rev (remdups xs)) (results_with (Some \<lparr>br_data = Some [injecting_sandbox]\<rparr>))"
proof -
  let ?r = "results_with (Some \<lparr>br_data = Some [injecting_sandbox]\<rparr>)"
  obtain t where "generate_report remdups ?r = Inr t"
    using generate_report_results_with [of remdups "Some \<lparr>br_data = Some [injecting_sandbox]\<rparr>"]
    by blast
  then have "generate_report remdups ?r \<noteq> Inl OverflowError"
    by simp
  then have "\<not> (\<forall>f. generate_report f ?r = Inl OverflowError)"
    by blast
  then obtain pre post where s: "\<forall>f. set_iteration f \<longrightarrow>
     generate_report f ?r = Inr (pre @ flag_text (f (report_flags ?r)) @ post)"
    using report_text_split [of ?r] by blast
  have a: "generate_report remdups ?r =
      Inr (pre @ flag_text [''Process injection detected'', ''Network communication detected''] @ post)"
    using s set_iteration_remdups by (simp add: report_flags_two)
  have b: "generate_report (\<lambda>xs. rev (remdups xs)) ?r =
      Inr (pre @ flag_text [''Network communication detected'', ''Process injection detected''] @ post)"
    using s set_iteration_rev_remdups by (simp add: report_flags_two)
  have "flag_text [''Process injection detected'', ''Network communication detected''] \<noteq>
        flag_text [''Network communication detected'', ''Process injection detected'']"
    by (simp add: flag_text_def flag_entry_def)
  with a b have "generate_report remdups ?r \<noteq> generate_report (\<lambda>xs. rev (remdups xs)) ?r"
    by simp
  then show ?thesis
    using set_iteration_remdups set_iteration_rev_remdups by blast
qed

text \<open>
  Claim C6, amended. For two runs on the same input, each with its own iteration order
  of the set of flags, either both fail (with the \<^verbatim>\<open>OverflowError\<close> of the rate's
  division) or the report texts agree except for the order of the flag lines of the
  behavioral summary: both are the same text before and the same text after the flag
  lines, and the flag lines of one run are a permutation of those of the other. The two
  results are identical when at most one distinct flag is raised.
\<close>

theorem report_deterministic_up_to_flag_order:
  "set_iteration f \<and> set_iteration g \<longrightarrow>
     ((generate_report f r = Inl OverflowError \<and> generate_report g r = Inl OverflowError) \<or>
      (\<exists>pre post.
         generate_report f r = Inr (pre @ flag_text (f (report_flags r)) @ post) \<and>
         generate_report g r = Inr (pre @ flag_text (g (report_flags r)) @ post))) \<and>
     mset (f (report_flags r)) = mset (g (report_flags r)) \<and>
     (card (set (report_flags r)) \<le> 1 \<longrightarrow> generate_report f r = generate_report g r)"
proof
  assume fg: "set_iteration f \<and> set_iteration g"
  from report_text_split [of r] fg
  have split: "(generate_report f r = Inl OverflowError \<and> generate_report g r = Inl OverflowError) \<or>
      (\<exists>pre post.
         generate_report f r = Inr (pre @ flag_text (f (report_flags r)) @ post) \<and>
         generate_report g r = Inr (pre @ flag_text (g (report_flags r)) @ post))"
    by blast
  from fg have perm: "mset (f (report_flags r)) = mset (g (report_flags r))"
    by (simp add: set_iteration_mset)
  have same: "card (set (report_flags r)) \<le> 1 \<longrightarrow> generate_report f r = generate_report g r"
  proof
    assume "card (set (report_flags r)) \<le> 1"
    with fg have "f (report_flags r) = g (report_flags r)"
      by (simp add: set_iteration_card_le_1)
    then show "generate_report f r = generate_report g r"
      by (rule generate_report_order_cong)
  qed
  from split perm same show "((generate_report f r = Inl OverflowError \<and> generate_report g r = Inl OverflowError) \<or>
      (\<exists>pre post.
         generate_report f r = Inr (pre @ flag_text (f (report_flags r)) @ post) \<and>
         generate_report g r = Inr (pre @ flag_text (g (report_flags r)) @ post))) \<and>
     mset (f (report_flags r)) = mset (g (report_flags r)) \<and>
     (card (set (report_flags r)) \<le> 1 \<longrightarrow> generate_report f r = generate_report g r)"
    by blast
qed

theorem report_deterministic_up_to_flag_order_witness:
  "set_iteration remdups \<and> set_iteration (\<lambda>xs. rev (remdups xs)) \<and>
   card (set (report_flags (results_with (Some \<lparr>br_data = Some [http_sandbox, http_sandbox]\<rparr>)))) \<le> 1 \<and>
   generate_report remdups (results_with (Some \<lparr>br_data = Some [http_sandbox, http_sandbox]\<rparr>)) =
   generate_report (\<lambda>xs. rev (remdups xs)) (results_with (Some \<lparr>br_data = Some [http_sandbox, http_sandbox]\<rparr>)) \<and>
   (\<exists>pre post.
      generate_report remdups (results_with (Some \<lparr>br_data = Some [injecting_sandbox]\<rparr>)) =
        Inr (pre @ flag_text [''Process injection detected'', ''Network communication detected''] @ post) \<and>
      generate_report (\<lambda>xs. rev (remdups xs)) (results_with (Some \<lparr>br_data = Some [injecting_sandbox]\<rparr>)) =
        Inr (pre @ flag_text [''Network communication detected'', ''Process injection detected''] @ post))"
proof -
  let ?h = "results_with (Some \<lparr>br_data = Some [http_sandbox, http_sandbox]\<rparr>)"
  let ?i = "results_with (Some \<lparr>br_data = Some [injecting_sandbox]\<rparr>)"
  have fh: "report_flags ?h = [''Network communication detected'', ''Network communication detected'']"
    by (simp add: report_flags_def results_with_def behaviors_of_def behaviors_http)
  then have card: "card (set (report_flags ?h)) \<le> 1"
    by simp
  have same: "generate_report remdups ?h = generate_report (\<lambda>xs. rev (remdups xs)) ?h"
    using report_deterministic_up_to_flag_order [where f = remdups and g = "\<lambda>xs. rev (remdups xs)"
        and r = ?h] card set_iteration_remdups set_iteration_rev_remdups
    by blast
  obtain t where "generate_report remdups ?i = Inr t"
    using generate_report_results_with [of remdups "Some \<lparr>br_data = Some [injecting_sandbox]\<rparr>"]
    by blast
  then have ok: "generate_report remdups ?i \<noteq> Inl OverflowError"
    by simp
  have "\<exists>pre post.
      generate_report remdups ?i = Inr (pre @ flag_text (remdups (report_flags ?i)) @ post) \<and>
      generate_report (\<lambda>xs. rev (remdups xs)) ?i = Inr (pre @ flag_text (rev (remdups (report_flags ?i))) @ post)"
    using report_deterministic_up_to_flag_order [where f = remdups and g = "\<lambda>xs. rev (remdups xs)"
        and r = ?i] ok set_iteration_remdups set_iteration_rev_remdups
    by blast
  then have two: "\<exists>pre post.
      generate_report remdups ?i =
        Inr (pre @ flag_text [''Process injection detected'', ''Network communication detected''] @ post) \<and>
      generate_report (\<lambda>xs. rev (remdups xs)) ?i =
        Inr (pre @ flag_text [''Network communication detected'', ''Process injection detected''] @ post)"
    by (simp add: report_flags_two)
  from card same two set_iteration_remdups set_iteration_rev_remdups show ?thesis
    by blast
qed

end
